theory Spec2Isabelle
  imports Main
begin

section \<open>The trie-based HTTP router of \<^verbatim>\<open>router.go\<close>\<close>

text \<open>
  A shallow embedding of package \<^verbatim>\<open>router\<close>: the trie of \<^verbatim>\<open>subrouter\<close> nodes, the three
  registration operations \<^verbatim>\<open>Handle\<close>, \<^verbatim>\<open>SetDefault\<close> and \<^verbatim>\<open>SetErrorHandler\<close>, the
  walk \<^verbatim>\<open>findRoute\<close> and the dispatcher \<^verbatim>\<open>ServeHTTP\<close>.
\<close>

subsection \<open>Strings: \<^verbatim>\<open>strings.Split\<close> and \<^verbatim>\<open>strings.ToLower\<close>\<close>

text \<open>
  \<^verbatim>\<open>strings.Split(s, "/")\<close> cuts \<open>s\<close> at every slash and keeps the empty pieces, so the
  result has one more element than \<open>s\<close> has slashes: \<open>Split "" = [""]\<close>,
  \<open>Split "/" = ["", ""]\<close>, \<open>Split "/foo/" = ["", "foo", ""]\<close>.
\<close>

fun Split :: "string \<Rightarrow> string list" where
  "Split [] = [[]]"
| "Split (c # cs) =
     (if c = CHR ''/'' then [] # Split cs
      else (c # hd (Split cs)) # tl (Split cs))"

text \<open>
  \<^verbatim>\<open>strings.ToLower\<close>, on the ASCII letters: each of \<open>A\<close> to \<open>Z\<close> moves to its lower-case
  letter, every other byte stays. (Go also lower-cases letters beyond ASCII; the router
  only uses the result as a map key, and no statement below depends on more than
  \<open>ToLower\<close> being a function.)
\<close>

definition lowerChar :: "char \<Rightarrow> char" where
  "lowerChar c =
     (case map_of (zip ''ABCDEFGHIJKLMNOPQRSTUVWXYZ'' ''abcdefghijklmnopqrstuvwxyz'') c of
        None \<Rightarrow> c
      | Some l \<Rightarrow> l)"

definition ToLower :: "string \<Rightarrow> string" where
  "ToLower s = map lowerChar s"

subsection \<open>Handlers\<close>

text \<open>
  \<^verbatim>\<open>type Route func(w, r, args) error\<close> and \<^verbatim>\<open>type ErrorHandler func(w, r, er)\<close> are function
  types, whose values are \<^verbatim>\<open>nil\<close>, the package's built-in function, or a function the
  caller supplies (\<open>'r\<close> and \<open>'e\<close> are the types of those).
\<close>

datatype 'r Route = NilRoute | nullRoute | RouteFn 'r

datatype 'e ErrorHandler = NilErrorHandler | nullErrorHandler | ErrorHandlerFn 'e

subsection \<open>The trie\<close>

text \<open>
  \<^verbatim>\<open>type subrouter struct { children map[string]*subrouter; route, defaultRoute Route;
  errorHandler ErrorHandler }\<close>. Every node is allocated by \<^verbatim>\<open>newSubrouter\<close> and stored in
  exactly one map, so the pointers form a tree and a node is modelled by its value; a
  pointer to a node is the list of the keys that lead to it.
\<close>

datatype ('r, 'e) subrouter =
  Subrouter
    (children: "string \<Rightarrow> ('r, 'e) subrouter option")
    (route: "'r Route")
    (defaultRoute: "'r Route")
    (errorHandler: "'e ErrorHandler")

definition newSubrouter :: "('r, 'e) subrouter" where
  "newSubrouter = Subrouter Map.empty NilRoute NilRoute NilErrorHandler"

text \<open>
  \<^verbatim>\<open>type Router struct { children map[string]*subrouter }\<close>: one root per lower-cased
  method. The field is named \<open>roots\<close> here, \<open>children\<close> being the field of a node.
\<close>

record ('r, 'e) Router =
  roots :: "string \<Rightarrow> ('r, 'e) subrouter option"

definition NewRouter :: "('r, 'e) Router" where
  "NewRouter = \<lparr> roots = Map.empty \<rparr>"

text \<open>Assignments to the fields of a node.\<close>

fun set_children ::
  "(string \<Rightarrow> ('r, 'e) subrouter option) \<Rightarrow> ('r, 'e) subrouter \<Rightarrow> ('r, 'e) subrouter" where
  "set_children m (Subrouter _ rt d eh) = Subrouter m rt d eh"

fun set_route :: "'r Route \<Rightarrow> ('r, 'e) subrouter \<Rightarrow> ('r, 'e) subrouter" where
  "set_route rt (Subrouter m _ d eh) = Subrouter m rt d eh"

fun set_defaultRoute :: "'r Route \<Rightarrow> ('r, 'e) subrouter \<Rightarrow> ('r, 'e) subrouter" where
  "set_defaultRoute d (Subrouter m rt _ eh) = Subrouter m rt d eh"

fun set_errorHandler :: "'e ErrorHandler \<Rightarrow> ('r, 'e) subrouter \<Rightarrow> ('r, 'e) subrouter" where
  "set_errorHandler eh (Subrouter m rt d _) = Subrouter m rt d eh"

subsection \<open>Pointers into the trie\<close>

text \<open>
  \<open>nodeAt ks sr\<close> follows the keys \<open>ks\<close> from \<open>sr\<close> through the \<open>children\<close> maps (the node a
  pointer designates), and \<open>updateAt ks f sr\<close> is the trie after the node at \<open>ks\<close> has been
  assigned through the pointer.
\<close>

fun nodeAt :: "string list \<Rightarrow> ('r, 'e) subrouter \<Rightarrow> ('r, 'e) subrouter option" where
  "nodeAt [] sr = Some sr"
| "nodeAt (k # ks) sr =
     (case children sr k of None \<Rightarrow> None | Some tmp \<Rightarrow> nodeAt ks tmp)"

fun updateAt ::
  "string list \<Rightarrow> (('r, 'e) subrouter \<Rightarrow> ('r, 'e) subrouter) \<Rightarrow> ('r, 'e) subrouter
   \<Rightarrow> ('r, 'e) subrouter" where
  "updateAt [] f sr = f sr"
| "updateAt (k # ks) f sr =
     (case children sr k of
        None \<Rightarrow> sr
      | Some tmp \<Rightarrow> set_children ((children sr)(k \<mapsto> updateAt ks f tmp)) sr)"

subsection \<open>\<^verbatim>\<open>insertSubrouter\<close>\<close>

text \<open>
  The loop of \<^verbatim>\<open>insertSubrouter\<close> over \<^verbatim>\<open>pathParts\<close>: an empty part is skipped, a missing
  child is created, and the walk moves into the child. The result is the trie below
  \<open>sr\<close> after the loop.
\<close>

fun insertLoop :: "string list \<Rightarrow> ('r, 'e) subrouter \<Rightarrow> ('r, 'e) subrouter" where
  "insertLoop [] sr = sr"
| "insertLoop (pathPart # rest) sr =
     (if pathPart = [] then insertLoop rest sr
      else
        (case children sr pathPart of
           None \<Rightarrow> set_children ((children sr)(pathPart \<mapsto> insertLoop rest newSubrouter)) sr
         | Some tmp \<Rightarrow> set_children ((children sr)(pathPart \<mapsto> insertLoop rest tmp)) sr))"

text \<open>The keys of the node the loop ends at: the parts it did not skip.\<close>

definition pathKeys :: "string list \<Rightarrow> string list" where
  "pathKeys pathParts = filter (\<lambda>pathPart. pathPart \<noteq> []) pathParts"

text \<open>
  \<^verbatim>\<open>insertSubrouter(method, url)\<close> returns the router after the insertion and the pointer
  \<^verbatim>\<open>sr\<close>: the lower-cased method and the keys below that method's root.
\<close>

type_synonym ptr = "string \<times> string list"

definition insertSubrouter ::
  "('r, 'e) Router \<Rightarrow> string \<Rightarrow> string \<Rightarrow> ('r, 'e) Router \<times> ptr" where
  "insertSubrouter r method url =
     (let pathParts = Split url;
          method' = ToLower method;
          sr = (case roots r method' of None \<Rightarrow> newSubrouter | Some sr \<Rightarrow> sr)
      in (r\<lparr>roots := (roots r)(method' \<mapsto> insertLoop pathParts sr)\<rparr>,
          (method', pathKeys pathParts)))"

definition deref :: "('r, 'e) Router \<Rightarrow> ptr \<Rightarrow> ('r, 'e) subrouter option" where
  "deref r p = (case roots r (fst p) of None \<Rightarrow> None | Some sr \<Rightarrow> nodeAt (snd p) sr)"

definition assign ::
  "('r, 'e) Router \<Rightarrow> ptr \<Rightarrow> (('r, 'e) subrouter \<Rightarrow> ('r, 'e) subrouter) \<Rightarrow> ('r, 'e) Router" where
  "assign r p f =
     (case roots r (fst p) of
        None \<Rightarrow> r
      | Some sr \<Rightarrow> r\<lparr>roots := (roots r)(fst p \<mapsto> updateAt (snd p) f sr)\<rparr>)"

subsection \<open>Registration: \<^verbatim>\<open>Handle\<close>, \<^verbatim>\<open>SetDefault\<close>, \<^verbatim>\<open>SetErrorHandler\<close>\<close>

text \<open>A panic carries its message; a registration returns the panic or the new router.\<close>

datatype panic = Panic string

definition Handle ::
  "('r, 'e) Router \<Rightarrow> string \<Rightarrow> string \<Rightarrow> 'r Route \<Rightarrow> panic + ('r, 'e) Router" where
  "Handle r method url rt =
     (let (r', p) = insertSubrouter r method url
      in case deref r' p of
           None \<Rightarrow> Inl (Panic ''invalid memory address or nil pointer dereference'')
         | Some sr \<Rightarrow>
             if route sr \<noteq> NilRoute
             then Inl (Panic (''router: already exists a route for '' @ method @ '' '' @ url))
             else Inr (assign r' p (set_route rt)))"

definition SetDefault ::
  "('r, 'e) Router \<Rightarrow> string \<Rightarrow> string \<Rightarrow> 'r Route \<Rightarrow> panic + ('r, 'e) Router" where
  "SetDefault r method url rt =
     (let (r', p) = insertSubrouter r method url
      in case deref r' p of
           None \<Rightarrow> Inl (Panic ''invalid memory address or nil pointer dereference'')
         | Some sr \<Rightarrow>
             if defaultRoute sr \<noteq> NilRoute
             then Inl (Panic (''router: already exists a default route for '' @ method @ '' '' @ url))
             else Inr (assign r' p (set_defaultRoute rt)))"

definition SetErrorHandler ::
  "('r, 'e) Router \<Rightarrow> string \<Rightarrow> string \<Rightarrow> 'e ErrorHandler \<Rightarrow> panic + ('r, 'e) Router" where
  "SetErrorHandler r method url rt =
     (let (r', p) = insertSubrouter r method url
      in case deref r' p of
           None \<Rightarrow> Inl (Panic ''invalid memory address or nil pointer dereference'')
         | Some sr \<Rightarrow>
             if errorHandler sr \<noteq> NilErrorHandler
             then Inl (Panic (''router: already exists an error handler for '' @ method @ '' '' @ url))
             else Inr (assign r' p (set_errorHandler rt)))"

subsection \<open>\<^verbatim>\<open>findRoute\<close>\<close>

text \<open>
  The loop of \<^verbatim>\<open>findRoute\<close> with its local variables \<^verbatim>\<open>sr\<close>, \<^verbatim>\<open>rt\<close>, \<^verbatim>\<open>erh\<close> and \<^verbatim>\<open>args\<close>,
  followed by the test of \<^verbatim>\<open>sr.route\<close> after the loop. The \<^verbatim>\<open>return\<close> inside the loop
  leaves with the current \<^verbatim>\<open>rt\<close>, \<^verbatim>\<open>erh\<close> and \<^verbatim>\<open>args\<close>.
\<close>

fun findLoop ::
  "string list \<Rightarrow> ('r, 'e) subrouter \<Rightarrow> 'r Route \<Rightarrow> 'e ErrorHandler \<Rightarrow> string list
   \<Rightarrow> 'r Route \<times> 'e ErrorHandler \<times> string list" where
  "findLoop [] sr rt erh args =
     ((if route sr \<noteq> NilRoute then route sr else rt), erh, args)"
| "findLoop (pathPart # rest) sr rt erh args =
     (let rt = (if defaultRoute sr \<noteq> NilRoute then defaultRoute sr else rt);
          erh = (if errorHandler sr \<noteq> NilErrorHandler then errorHandler sr else erh)
      in if pathPart = [] then findLoop rest sr rt erh args
         else
           (case children sr pathPart of
              Some tmp \<Rightarrow> findLoop rest tmp rt erh args
            | None \<Rightarrow>
                (case children sr ''*'' of
                   None \<Rightarrow> (rt, erh, args)
                 | Some tmp \<Rightarrow> findLoop rest tmp rt erh (args @ [pathPart]))))"

definition findRoute ::
  "('r, 'e) Router \<Rightarrow> string \<Rightarrow> string list \<Rightarrow> 'r Route \<times> 'e ErrorHandler \<times> string list" where
  "findRoute r method pathParts =
     (let method' = ToLower method;
          rt = nullRoute;
          erh = nullErrorHandler
      in case roots r method' of
           None \<Rightarrow> (rt, erh, [])
         | Some sr \<Rightarrow>
             (let rt = (if defaultRoute sr \<noteq> NilRoute then defaultRoute sr else rt);
                  erh = (if errorHandler sr \<noteq> NilErrorHandler then errorHandler sr else erh)
              in findLoop pathParts sr rt erh []))"

subsection \<open>\<^verbatim>\<open>ServeHTTP\<close>\<close>

text \<open>
  A request carries \<^verbatim>\<open>req.Method\<close> and \<^verbatim>\<open>req.URL.Path\<close>. A handler the caller supplies
  is a function that transforms the world \<open>'w\<close> (the response writer and whatever else
  the handler touches); a route also returns its \<^verbatim>\<open>error\<close>, \<open>None\<close> for \<^verbatim>\<open>nil\<close>.
\<close>

record Request =
  Method :: string
  URL_Path :: string

type_synonym ('w, 'x) route_fn = "'w \<Rightarrow> Request \<Rightarrow> string list \<Rightarrow> 'x option \<times> 'w"

type_synonym ('w, 'x) error_fn = "'w \<Rightarrow> Request \<Rightarrow> 'x \<Rightarrow> 'w"

text \<open>
  The two functions of \<^verbatim>\<open>net/http\<close> that the built-in handlers call, \<^verbatim>\<open>http.NotFound(w, r)\<close>
  and \<^verbatim>\<open>http.Error(w, msg, code)\<close>, are parameters of the model.
\<close>

record 'w net_http =
  http_NotFound :: "'w \<Rightarrow> Request \<Rightarrow> 'w"
  http_Error :: "'w \<Rightarrow> string \<Rightarrow> nat \<Rightarrow> 'w"

definition StatusInternalServerError :: nat where
  "StatusInternalServerError = 500"

text \<open>Calling a value of type \<^verbatim>\<open>Route\<close> or \<^verbatim>\<open>ErrorHandler\<close>; calling \<^verbatim>\<open>nil\<close> panics.\<close>

fun callRoute ::
  "'w net_http \<Rightarrow> ('w, 'x) route_fn Route \<Rightarrow> 'w \<Rightarrow> Request \<Rightarrow> string list
   \<Rightarrow> panic + ('x option \<times> 'w)" where
  "callRoute h NilRoute w req args =
     Inl (Panic ''invalid memory address or nil pointer dereference'')"
| "callRoute h nullRoute w req args = Inr (None, http_NotFound h w req)"
| "callRoute h (RouteFn f) w req args = Inr (f w req args)"

fun callErrorHandler ::
  "'w net_http \<Rightarrow> ('w, 'x) error_fn ErrorHandler \<Rightarrow> 'w \<Rightarrow> Request \<Rightarrow> 'x \<Rightarrow> panic + 'w" where
  "callErrorHandler h NilErrorHandler w req er =
     Inl (Panic ''invalid memory address or nil pointer dereference'')"
| "callErrorHandler h nullErrorHandler w req er =
     Inr (http_Error h w ''Internal Server Error'' StatusInternalServerError)"
| "callErrorHandler h (ErrorHandlerFn f) w req er = Inr (f w req er)"

text \<open>
  \<^verbatim>\<open>ServeHTTP\<close> returns the world after the request, together with the calls it made to
  handlers, in order.
\<close>

datatype ('w, 'x) call =
  RouteCall "('w, 'x) route_fn Route" "string list"
| ErrorHandlerCall "('w, 'x) error_fn ErrorHandler" 'x

fun isRouteCall :: "('w, 'x) call \<Rightarrow> bool" where
  "isRouteCall (RouteCall _ _) = True"
| "isRouteCall (ErrorHandlerCall _ _) = False"

fun isErrorHandlerCall :: "('w, 'x) call \<Rightarrow> bool" where
  "isErrorHandlerCall (RouteCall _ _) = False"
| "isErrorHandlerCall (ErrorHandlerCall _ _) = True"

definition ServeHTTP ::
  "'w net_http \<Rightarrow> (('w, 'x) route_fn, ('w, 'x) error_fn) Router \<Rightarrow> 'w \<Rightarrow> Request
   \<Rightarrow> panic + (('w, 'x) call list \<times> 'w)" where
  "ServeHTTP h r w req =
     (let pathParts = Split (URL_Path req);
          (rt, erh, args) = findRoute r (Method req) pathParts
      in case callRoute h rt w req args of
           Inl p \<Rightarrow> Inl p
         | Inr (None, w1) \<Rightarrow> Inr ([RouteCall rt args], w1)
         | Inr (Some er, w1) \<Rightarrow>
             (case callErrorHandler h erh w1 req er of
                Inl p \<Rightarrow> Inl p
              | Inr w2 \<Rightarrow> Inr ([RouteCall rt args, ErrorHandlerCall erh er], w2)))"

subsection \<open>Observing the trie\<close>

text \<open>
  The three handler slots of the node a pointer designates, \<^verbatim>\<open>nil\<close> where there is no
  such node.
\<close>

definition routeOf :: "('r, 'e) Router \<Rightarrow> ptr \<Rightarrow> 'r Route" where
  "routeOf r p = (case deref r p of None \<Rightarrow> NilRoute | Some sr \<Rightarrow> route sr)"

definition defaultRouteOf :: "('r, 'e) Router \<Rightarrow> ptr \<Rightarrow> 'r Route" where
  "defaultRouteOf r p = (case deref r p of None \<Rightarrow> NilRoute | Some sr \<Rightarrow> defaultRoute sr)"

definition errorHandlerOf :: "('r, 'e) Router \<Rightarrow> ptr \<Rightarrow> 'e ErrorHandler" where
  "errorHandlerOf r p =
     (case deref r p of None \<Rightarrow> NilErrorHandler | Some sr \<Rightarrow> errorHandler sr)"

text \<open>The pointer \<^verbatim>\<open>insertSubrouter(method, url)\<close> returns.\<close>

definition target :: "string \<Rightarrow> string \<Rightarrow> ptr" where
  "target method url = (ToLower method, pathKeys (Split url))"

subsection \<open>Sequences of registrations\<close>

text \<open>
  A router is set up by a sequence of calls to the three registration functions, as in
  the package's tests; the first panic ends the sequence.
\<close>

datatype ('r, 'e) registration =
  DoHandle string string "'r Route"
| DoSetDefault string string "'r Route"
| DoSetErrorHandler string string "'e ErrorHandler"

fun register :: "('r, 'e) Router \<Rightarrow> ('r, 'e) registration \<Rightarrow> panic + ('r, 'e) Router" where
  "register r (DoHandle method url rt) = Handle r method url rt"
| "register r (DoSetDefault method url rt) = SetDefault r method url rt"
| "register r (DoSetErrorHandler method url erh) = SetErrorHandler r method url erh"

fun registerAll ::
  "('r, 'e) Router \<Rightarrow> ('r, 'e) registration list \<Rightarrow> panic + ('r, 'e) Router" where
  "registerAll r [] = Inr r"
| "registerAll r (x # xs) =
     (case register r x of Inl p \<Rightarrow> Inl p | Inr r' \<Rightarrow> registerAll r' xs)"

text \<open>
  \<open>resolve res method path\<close> is \<^verbatim>\<open>findRoute\<close> on the router that a registration sequence
  built, at the parts \<^verbatim>\<open>ServeHTTP\<close> splits the path into.
\<close>

definition resolve ::
  "panic + ('r, 'e) Router \<Rightarrow> string \<Rightarrow> string
   \<Rightarrow> panic + ('r Route \<times> 'e ErrorHandler \<times> string list)" where
  "resolve res method path =
     (case res of Inl p \<Rightarrow> Inl p | Inr r \<Rightarrow> Inr (findRoute r method (Split path)))"

subsection \<open>The walk of \<^verbatim>\<open>findRoute\<close>, as a sequence of nodes\<close>

text \<open>
  \<open>walk parts sr\<close> follows the descent rule of the loop of \<^verbatim>\<open>findRoute\<close> on its own: an
  empty part stays, a part with a literal child moves into it, a part with no literal
  child moves into the child \<open>*\<close> and captures the part. It returns the node \<^verbatim>\<open>sr\<close> points
  to at the start of each iteration followed by the node after the last one, and the
  captured parts; \<open>None\<close> when some part has neither child.
\<close>

fun walk ::
  "string list \<Rightarrow> ('r, 'e) subrouter \<Rightarrow> (('r, 'e) subrouter list \<times> string list) option" where
  "walk [] sr = Some ([sr], [])"
| "walk (pathPart # rest) sr =
     (if pathPart = [] then
        (case walk rest sr of None \<Rightarrow> None | Some (ns, caps) \<Rightarrow> Some (sr # ns, caps))
      else
        (case children sr pathPart of
           Some tmp \<Rightarrow>
             (case walk rest tmp of None \<Rightarrow> None | Some (ns, caps) \<Rightarrow> Some (sr # ns, caps))
         | None \<Rightarrow>
             (case children sr ''*'' of
                None \<Rightarrow> None
              | Some tmp \<Rightarrow>
                  (case walk rest tmp of
                     None \<Rightarrow> None
                   | Some (ns, caps) \<Rightarrow> Some (sr # ns, pathPart # caps)))))"

text \<open>
  The most recently inherited default route along a sequence of nodes: the last
  \<^verbatim>\<open>defaultRoute\<close> that is not \<^verbatim>\<open>nil\<close>, and \<open>rt\<close> when there is none. Likewise for the error
  handler.
\<close>

definition inheritedDefault :: "('r, 'e) subrouter list \<Rightarrow> 'r Route \<Rightarrow> 'r Route" where
  "inheritedDefault ns rt = last (rt # filter (\<lambda>d. d \<noteq> NilRoute) (map defaultRoute ns))"

definition inheritedErrorHandler ::
  "('r, 'e) subrouter list \<Rightarrow> 'e ErrorHandler \<Rightarrow> 'e ErrorHandler" where
  "inheritedErrorHandler ns erh =
     last (erh # filter (\<lambda>h. h \<noteq> NilErrorHandler) (map errorHandler ns))"

subsection \<open>Wildcard patterns\<close>

text \<open>
  \<open>subst ks vals\<close> is the key sequence \<open>ks\<close> of a registered path with its \<open>*\<close> keys replaced,
  in order, by the values \<open>vals\<close>; \<open>wildcards ks\<close> counts the \<open>*\<close> keys.
\<close>

fun subst :: "string list \<Rightarrow> string list \<Rightarrow> string list" where
  "subst [] vals = []"
| "subst (k # ks) vals =
     (if k = ''*'' then
        (case vals of [] \<Rightarrow> k # subst ks [] | v # vals' \<Rightarrow> v # subst ks vals')
      else k # subst ks vals)"

definition wildcards :: "string list \<Rightarrow> nat" where
  "wildcards ks = length (filter (\<lambda>k. k = ''*'') ks)"

text \<open>
  \<open>unshadowed ks vals sr\<close>: along the registered keys \<open>ks\<close> below \<open>sr\<close>, no node before a \<open>*\<close>
  key has a literal child named by the value substituted there.
\<close>

fun unshadowed :: "string list \<Rightarrow> string list \<Rightarrow> ('r, 'e) subrouter \<Rightarrow> bool" where
  "unshadowed [] vals sr = True"
| "unshadowed (k # ks) vals sr =
     (if k = ''*'' then
        (case vals of
           [] \<Rightarrow> True
         | v # vals' \<Rightarrow>
             children sr v = None \<and>
             (case children sr ''*'' of None \<Rightarrow> True | Some tmp \<Rightarrow> unshadowed ks vals' tmp))
      else (case children sr k of None \<Rightarrow> True | Some tmp \<Rightarrow> unshadowed ks vals tmp))"

subsection \<open>The routers of the package's tests\<close>

text \<open>
  \<^verbatim>\<open>TestDefaultRoutes\<close> and \<^verbatim>\<open>TestArgRoutes\<close> build a router by the registrations below (with
  \<^verbatim>\<open>makeRoute(1)\<close>, \<^verbatim>\<open>makeRoute(2)\<close>, ... as handlers and \<open>GET\<close> as method; the handlers and
  the method are parameters here).
\<close>

definition TestDefaultRoutes ::
  "string \<Rightarrow> 'r \<Rightarrow> 'r \<Rightarrow> 'r \<Rightarrow> 'r \<Rightarrow> panic + ('r, 'e) Router" where
  "TestDefaultRoutes method d1 d2 r3 r4 =
     registerAll NewRouter
       [DoSetDefault method ''/'' (RouteFn d1),
        DoSetDefault method ''/foo'' (RouteFn d2),
        DoHandle method ''/bar'' (RouteFn r3),
        DoHandle method ''/foo/bar'' (RouteFn r4)]"

definition TestArgRoutes ::
  "string \<Rightarrow> 'r \<Rightarrow> 'r \<Rightarrow> 'r \<Rightarrow> 'r \<Rightarrow> 'r \<Rightarrow> 'r \<Rightarrow> panic + ('r, 'e) Router" where
  "TestArgRoutes method r1 r2 r3 r4 r5 d6 =
     registerAll NewRouter
       [DoHandle method ''/'' (RouteFn r1),
        DoHandle method ''/*'' (RouteFn r2),
        DoHandle method ''/*/*'' (RouteFn r3),
        DoHandle method ''/foo/*'' (RouteFn r4),
        DoHandle method ''/*/foo'' (RouteFn r5),
        DoSetDefault method ''/'' (RouteFn d6)]"

section \<open>Lemmas\<close>

lemma Split_not_Nil: "Split s \<noteq> []"
  by (induction s) auto

lemma children_set_children [simp]: "children (set_children m sr) = m"
  by (cases sr) simp
lemma route_set_children [simp]: "route (set_children m sr) = route sr"
  by (cases sr) simp
lemma defaultRoute_set_children [simp]: "defaultRoute (set_children m sr) = defaultRoute sr"
  by (cases sr) simp
lemma errorHandler_set_children [simp]: "errorHandler (set_children m sr) = errorHandler sr"
  by (cases sr) simp

lemma children_set_route [simp]: "children (set_route x sr) = children sr"
  by (cases sr) simp
lemma route_set_route [simp]: "route (set_route x sr) = x"
  by (cases sr) simp
lemma defaultRoute_set_route [simp]: "defaultRoute (set_route x sr) = defaultRoute sr"
  by (cases sr) simp
lemma errorHandler_set_route [simp]: "errorHandler (set_route x sr) = errorHandler sr"
  by (cases sr) simp

lemma children_set_defaultRoute [simp]: "children (set_defaultRoute x sr) = children sr"
  by (cases sr) simp
lemma route_set_defaultRoute [simp]: "route (set_defaultRoute x sr) = route sr"
  by (cases sr) simp
lemma defaultRoute_set_defaultRoute [simp]: "defaultRoute (set_defaultRoute x sr) = x"
  by (cases sr) simp
lemma errorHandler_set_defaultRoute [simp]: "errorHandler (set_defaultRoute x sr) = errorHandler sr"
  by (cases sr) simp

lemma children_set_errorHandler [simp]: "children (set_errorHandler x sr) = children sr"
  by (cases sr) simp
lemma route_set_errorHandler [simp]: "route (set_errorHandler x sr) = route sr"
  by (cases sr) simp
lemma defaultRoute_set_errorHandler [simp]: "defaultRoute (set_errorHandler x sr) = defaultRoute sr"
  by (cases sr) simp
lemma errorHandler_set_errorHandler [simp]: "errorHandler (set_errorHandler x sr) = x"
  by (cases sr) simp

lemma newSubrouter_sel [simp]:
  "children newSubrouter = Map.empty" "route newSubrouter = NilRoute"
  "defaultRoute newSubrouter = NilRoute" "errorHandler newSubrouter = NilErrorHandler"
  by (simp_all add: newSubrouter_def)

lemma set_children_same: "set_children (children sr) sr = sr"
  by (cases sr) simp

lemma pathKeys_simps [simp]:
  "pathKeys [] = []"
  "pathKeys (p # ps) = (if p = [] then pathKeys ps else p # pathKeys ps)"
  by (simp_all add: pathKeys_def)

lemma nodeAt_newSubrouter: "nodeAt ks newSubrouter = (if ks = [] then Some newSubrouter else None)"
  by (cases ks) simp_all

text \<open>The node the loop of insertSubrouter ends at exists afterwards.\<close>

lemma nodeAt_insertLoop_keys: "\<exists>n. nodeAt (pathKeys parts) (insertLoop parts sr) = Some n"
  by (induction parts arbitrary: sr) (auto split: option.splits)

text \<open>insertLoop keeps every slot of every node; the nodes it creates have empty slots.\<close>

lemma slot_insertLoop:
  fixes g :: "('r, 'e) subrouter \<Rightarrow> 'a"
  assumes new: "g newSubrouter = z"
    and ch: "\<And>m n. g (set_children m n) = g n"
  shows "(case nodeAt ks (insertLoop parts sr) of None \<Rightarrow> z | Some n \<Rightarrow> g n)
       = (case nodeAt ks sr of None \<Rightarrow> z | Some n \<Rightarrow> g n)"
proof (induction parts arbitrary: sr ks)
  case Nil
  show ?case by simp
next
  case (Cons p ps)
  show ?case
  proof (cases "p = []")
    case True
    then show ?thesis using Cons.IH by simp
  next
    case False
    show ?thesis
    proof (cases ks)
      case Nil
      then show ?thesis using False by (simp add: ch split: option.splits)
    next
      case (Cons k ks')
      show ?thesis
      proof (cases "k = p")
        case True
        show ?thesis
        proof (cases "children sr p")
          case None
          have "(case nodeAt ks' (insertLoop ps newSubrouter) of None \<Rightarrow> z | Some n \<Rightarrow> g n)
              = (case nodeAt ks' (newSubrouter :: ('r, 'e) subrouter) of None \<Rightarrow> z | Some n \<Rightarrow> g n)"
            by (rule Cons.IH)
          also have "\<dots> = z" by (simp add: nodeAt_newSubrouter new)
          finally show ?thesis using None True False Cons by simp
        next
          case (Some tmp)
          then show ?thesis using True False Cons Cons.IH [of ks' tmp] by simp
        qed
      next
        case neq: False
        then show ?thesis using False Cons by (simp split: option.splits)
      qed
    qed
  qed
qed

lemma nodeAt_updateAt_same:
  "nodeAt ks sr = Some n \<Longrightarrow> nodeAt ks (updateAt ks f sr) = Some (f n)"
  by (induction ks arbitrary: sr) (auto split: option.splits)

lemma slot_updateAt:
  assumes ch: "\<And>m n. g (set_children m n) = g n"
    and fch: "\<And>n. children (f n) = children n"
    and other: "ks' \<noteq> ks \<or> (\<forall>n. g (f n) = g n)"
  shows "(case nodeAt ks' (updateAt ks f sr) of None \<Rightarrow> z | Some n \<Rightarrow> g n)
       = (case nodeAt ks' sr of None \<Rightarrow> z | Some n \<Rightarrow> g n)"
  using other
proof (induction ks arbitrary: sr ks')
  case Nil
  then show ?case by (cases ks') (simp_all add: fch)
next
  case (Cons k ks)
  show ?case
  proof (cases "children sr k")
    case None
    then show ?thesis by simp
  next
    case (Some tmp)
    show ?thesis
    proof (cases ks')
      case Nil
      then show ?thesis using Some by (simp add: ch)
    next
      case (Cons k' ks'')
      show ?thesis
      proof (cases "k' = k")
        case True
        have "ks'' \<noteq> ks \<or> (\<forall>n. g (f n) = g n)" using Cons.prems Cons True by auto
        from Cons.IH [OF this, of tmp] show ?thesis using Some Cons True by simp
      next
        case False
        then show ?thesis using Some Cons by simp
      qed
    qed
  qed
qed

lemma snd_insertSubrouter:
  "snd (insertSubrouter r method url) = (ToLower method, pathKeys (Split url))"
  by (simp add: insertSubrouter_def Let_def)

lemma deref_insertSubrouter:
  "\<exists>n. deref (fst (insertSubrouter r method url)) (ToLower method, pathKeys (Split url)) = Some n"
  using nodeAt_insertLoop_keys by (simp add: insertSubrouter_def Let_def deref_def)

lemma slot_insertSubrouter:
  fixes g :: "('r, 'e) subrouter \<Rightarrow> 'a"
  assumes new: "g newSubrouter = z"
    and ch: "\<And>m n. g (set_children m n) = g n"
  shows "(case deref (fst (insertSubrouter r method url)) q of None \<Rightarrow> z | Some n \<Rightarrow> g n)
       = (case deref r q of None \<Rightarrow> z | Some n \<Rightarrow> g n)"
proof (cases "fst q = ToLower method")
  case False
  then show ?thesis by (simp add: insertSubrouter_def Let_def deref_def)
next
  case True
  show ?thesis
  proof (cases "roots r (ToLower method)")
    case None
    have "(case nodeAt (snd q) (insertLoop (Split url) newSubrouter) of None \<Rightarrow> z | Some n \<Rightarrow> g n)
        = (case nodeAt (snd q) (newSubrouter :: ('r, 'e) subrouter) of None \<Rightarrow> z | Some n \<Rightarrow> g n)"
      using new ch by (rule slot_insertLoop)
    also have "\<dots> = z" by (simp add: nodeAt_newSubrouter new)
    finally show ?thesis using None True by (simp add: insertSubrouter_def Let_def deref_def)
  next
    case (Some sr)
    have "(case nodeAt (snd q) (insertLoop (Split url) sr) of None \<Rightarrow> z | Some n \<Rightarrow> g n)
        = (case nodeAt (snd q) sr of None \<Rightarrow> z | Some n \<Rightarrow> g n)"
      using new ch by (rule slot_insertLoop)
    then show ?thesis using Some True by (simp add: insertSubrouter_def Let_def deref_def)
  qed
qed

lemma deref_assign_same: "deref r p = Some n \<Longrightarrow> deref (assign r p f) p = Some (f n)"
  by (auto simp: deref_def assign_def nodeAt_updateAt_same split: option.splits)

lemma slot_assign:
  assumes ch: "\<And>m n. g (set_children m n) = g n"
    and fch: "\<And>n. children (f n) = children n"
    and other: "q \<noteq> p \<or> (\<forall>n. g (f n) = g n)"
  shows "(case deref (assign r p f) q of None \<Rightarrow> z | Some n \<Rightarrow> g n)
       = (case deref r q of None \<Rightarrow> z | Some n \<Rightarrow> g n)"
proof (cases "roots r (fst p)")
  case None
  then show ?thesis by (simp add: assign_def)
next
  case (Some sr)
  show ?thesis
  proof (cases "fst q = fst p")
    case False
    then show ?thesis using Some by (simp add: assign_def deref_def)
  next
    case True
    then have "snd q \<noteq> snd p \<or> (\<forall>n. g (f n) = g n)"
      using other by (cases p, cases q) auto
    with ch fch have "(case nodeAt (snd q) (updateAt (snd p) f sr) of None \<Rightarrow> z | Some n \<Rightarrow> g n)
        = (case nodeAt (snd q) sr of None \<Rightarrow> z | Some n \<Rightarrow> g n)"
      by (rule slot_updateAt)
    then show ?thesis using Some True by (simp add: assign_def deref_def)
  qed
qed

text \<open>Handle, as a function of the route slot the pointer designates.\<close>

lemma Handle_eq:
  "Handle r method url rt =
     (if routeOf r (ToLower method, pathKeys (Split url)) \<noteq> NilRoute
      then Inl (Panic (''router: already exists a route for '' @ method @ '' '' @ url))
      else Inr (assign (fst (insertSubrouter r method url))
                  (ToLower method, pathKeys (Split url)) (set_route rt)))"
proof -
  obtain n where n: "deref (fst (insertSubrouter r method url))
      (ToLower method, pathKeys (Split url)) = Some n"
    using deref_insertSubrouter by blast
  have "(case deref (fst (insertSubrouter r method url)) (ToLower method, pathKeys (Split url))
          of None \<Rightarrow> NilRoute | Some n \<Rightarrow> route n)
      = routeOf r (ToLower method, pathKeys (Split url))"
    unfolding routeOf_def by (rule slot_insertSubrouter) simp_all
  then have "route n = routeOf r (ToLower method, pathKeys (Split url))"
    using n by simp
  then show ?thesis
    using n snd_insertSubrouter [of r "method" "url"]
    by (simp add: Handle_def split_beta)
qed

lemma SetDefault_eq:
  "SetDefault r method url rt =
     (if defaultRouteOf r (ToLower method, pathKeys (Split url)) \<noteq> NilRoute
      then Inl (Panic (''router: already exists a default route for '' @ method @ '' '' @ url))
      else Inr (assign (fst (insertSubrouter r method url))
                  (ToLower method, pathKeys (Split url)) (set_defaultRoute rt)))"
proof -
  obtain n where n: "deref (fst (insertSubrouter r method url))
      (ToLower method, pathKeys (Split url)) = Some n"
    using deref_insertSubrouter by blast
  have "(case deref (fst (insertSubrouter r method url)) (ToLower method, pathKeys (Split url))
          of None \<Rightarrow> NilRoute | Some n \<Rightarrow> defaultRoute n)
      = defaultRouteOf r (ToLower method, pathKeys (Split url))"
    unfolding defaultRouteOf_def by (rule slot_insertSubrouter) simp_all
  then have "defaultRoute n = defaultRouteOf r (ToLower method, pathKeys (Split url))"
    using n by simp
  then show ?thesis
    using n snd_insertSubrouter [of r "method" "url"]
    by (simp add: SetDefault_def split_beta)
qed

lemma SetErrorHandler_eq:
  "SetErrorHandler r method url rt =
     (if errorHandlerOf r (ToLower method, pathKeys (Split url)) \<noteq> NilErrorHandler
      then Inl (Panic (''router: already exists an error handler for '' @ method @ '' '' @ url))
      else Inr (assign (fst (insertSubrouter r method url))
                  (ToLower method, pathKeys (Split url)) (set_errorHandler rt)))"
proof -
  obtain n where n: "deref (fst (insertSubrouter r method url))
      (ToLower method, pathKeys (Split url)) = Some n"
    using deref_insertSubrouter by blast
  have "(case deref (fst (insertSubrouter r method url)) (ToLower method, pathKeys (Split url))
          of None \<Rightarrow> NilErrorHandler | Some n \<Rightarrow> errorHandler n)
      = errorHandlerOf r (ToLower method, pathKeys (Split url))"
    unfolding errorHandlerOf_def by (rule slot_insertSubrouter) simp_all
  then have "errorHandler n = errorHandlerOf r (ToLower method, pathKeys (Split url))"
    using n by simp
  then show ?thesis
    using n snd_insertSubrouter [of r "method" "url"]
    by (simp add: SetErrorHandler_def split_beta)
qed

text \<open>The slots of the router after an insertion followed by an assignment.\<close>

lemma routeOf_insert_assign_route:
  "routeOf (assign (fst (insertSubrouter r method url))
      (ToLower method, pathKeys (Split url)) (set_route rt)) q
   = (if q = (ToLower method, pathKeys (Split url)) then rt else routeOf r q)"
proof (cases "q = (ToLower method, pathKeys (Split url))")
  case True
  obtain n where n: "deref (fst (insertSubrouter r method url))
      (ToLower method, pathKeys (Split url)) = Some n"
    using deref_insertSubrouter by blast
  show ?thesis using True deref_assign_same [OF n] by (simp add: routeOf_def)
next
  case False
  have "routeOf (assign (fst (insertSubrouter r method url))
      (ToLower method, pathKeys (Split url)) (set_route rt)) q
      = routeOf (fst (insertSubrouter r method url)) q"
    unfolding routeOf_def using False by (intro slot_assign) simp_all
  also have "\<dots> = routeOf r q"
    unfolding routeOf_def by (rule slot_insertSubrouter) simp_all
  finally show ?thesis using False by simp
qed

lemma slot_insert_assign_other:
  fixes g :: "('r, 'e) subrouter \<Rightarrow> 'a"
  assumes new: "g newSubrouter = z"
    and ch: "\<And>m n. g (set_children m n) = g n"
    and fch: "\<And>n. children (f n) = children n"
    and same: "\<And>n. g (f n) = g n"
  shows "(case deref (assign (fst (insertSubrouter r method url)) p f) q of
            None \<Rightarrow> z | Some n \<Rightarrow> g n)
       = (case deref r q of None \<Rightarrow> z | Some n \<Rightarrow> g n)"
proof -
  have "(case deref (assign (fst (insertSubrouter r method url)) p f) q of
            None \<Rightarrow> z | Some n \<Rightarrow> g n)
      = (case deref (fst (insertSubrouter r method url)) q of None \<Rightarrow> z | Some n \<Rightarrow> g n)"
    using ch fch same by (intro slot_assign) simp_all
  also have "\<dots> = (case deref r q of None \<Rightarrow> z | Some n \<Rightarrow> g n)"
    using new ch by (rule slot_insertSubrouter)
  finally show ?thesis .
qed

lemma defaultRouteOf_insert_assign_default:
  "defaultRouteOf (assign (fst (insertSubrouter r method url))
      (ToLower method, pathKeys (Split url)) (set_defaultRoute rt)) q
   = (if q = (ToLower method, pathKeys (Split url)) then rt else defaultRouteOf r q)"
proof (cases "q = (ToLower method, pathKeys (Split url))")
  case True
  obtain n where n: "deref (fst (insertSubrouter r method url))
      (ToLower method, pathKeys (Split url)) = Some n"
    using deref_insertSubrouter by blast
  show ?thesis using True deref_assign_same [OF n] by (simp add: defaultRouteOf_def)
next
  case False
  have "defaultRouteOf (assign (fst (insertSubrouter r method url))
      (ToLower method, pathKeys (Split url)) (set_defaultRoute rt)) q
      = defaultRouteOf (fst (insertSubrouter r method url)) q"
    unfolding defaultRouteOf_def using False by (intro slot_assign) simp_all
  also have "\<dots> = defaultRouteOf r q"
    unfolding defaultRouteOf_def by (rule slot_insertSubrouter) simp_all
  finally show ?thesis using False by simp
qed

lemma errorHandlerOf_insert_assign_error:
  "errorHandlerOf (assign (fst (insertSubrouter r method url))
      (ToLower method, pathKeys (Split url)) (set_errorHandler rt)) q
   = (if q = (ToLower method, pathKeys (Split url)) then rt else errorHandlerOf r q)"
proof (cases "q = (ToLower method, pathKeys (Split url))")
  case True
  obtain n where n: "deref (fst (insertSubrouter r method url))
      (ToLower method, pathKeys (Split url)) = Some n"
    using deref_insertSubrouter by blast
  show ?thesis using True deref_assign_same [OF n] by (simp add: errorHandlerOf_def)
next
  case False
  have "errorHandlerOf (assign (fst (insertSubrouter r method url))
      (ToLower method, pathKeys (Split url)) (set_errorHandler rt)) q
      = errorHandlerOf (fst (insertSubrouter r method url)) q"
    unfolding errorHandlerOf_def using False by (intro slot_assign) simp_all
  also have "\<dots> = errorHandlerOf r q"
    unfolding errorHandlerOf_def by (rule slot_insertSubrouter) simp_all
  finally show ?thesis using False by simp
qed

text \<open>What a successful registration does to the three slots of every node.\<close>

lemma Handle_Inr:
  assumes "Handle r method url rt = Inr r'"
  shows "routeOf r (target method url) = NilRoute"
    and "routeOf r' q = (if q = target method url then rt else routeOf r q)"
    and "defaultRouteOf r' q = defaultRouteOf r q"
    and "errorHandlerOf r' q = errorHandlerOf r q"
proof -
  show nil: "routeOf r (target method url) = NilRoute"
    using assms by (simp add: Handle_eq target_def split: if_splits)
  then have r': "r' = assign (fst (insertSubrouter r method url))
      (ToLower method, pathKeys (Split url)) (set_route rt)"
    using assms by (simp add: Handle_eq target_def)
  show "routeOf r' q = (if q = target method url then rt else routeOf r q)"
    unfolding r' target_def by (rule routeOf_insert_assign_route)
  show "defaultRouteOf r' q = defaultRouteOf r q"
    unfolding r' defaultRouteOf_def by (rule slot_insert_assign_other) simp_all
  show "errorHandlerOf r' q = errorHandlerOf r q"
    unfolding r' errorHandlerOf_def by (rule slot_insert_assign_other) simp_all
qed

lemma SetDefault_Inr:
  assumes "SetDefault r method url rt = Inr r'"
  shows "defaultRouteOf r (target method url) = NilRoute"
    and "defaultRouteOf r' q = (if q = target method url then rt else defaultRouteOf r q)"
    and "routeOf r' q = routeOf r q"
    and "errorHandlerOf r' q = errorHandlerOf r q"
proof -
  show nil: "defaultRouteOf r (target method url) = NilRoute"
    using assms by (simp add: SetDefault_eq target_def split: if_splits)
  then have r': "r' = assign (fst (insertSubrouter r method url))
      (ToLower method, pathKeys (Split url)) (set_defaultRoute rt)"
    using assms by (simp add: SetDefault_eq target_def)
  show "defaultRouteOf r' q = (if q = target method url then rt else defaultRouteOf r q)"
    unfolding r' target_def by (rule defaultRouteOf_insert_assign_default)
  show "routeOf r' q = routeOf r q"
    unfolding r' routeOf_def by (rule slot_insert_assign_other) simp_all
  show "errorHandlerOf r' q = errorHandlerOf r q"
    unfolding r' errorHandlerOf_def by (rule slot_insert_assign_other) simp_all
qed

lemma SetErrorHandler_Inr:
  assumes "SetErrorHandler r method url erh = Inr r'"
  shows "errorHandlerOf r (target method url) = NilErrorHandler"
    and "errorHandlerOf r' q = (if q = target method url then erh else errorHandlerOf r q)"
    and "routeOf r' q = routeOf r q"
    and "defaultRouteOf r' q = defaultRouteOf r q"
proof -
  show nil: "errorHandlerOf r (target method url) = NilErrorHandler"
    using assms by (simp add: SetErrorHandler_eq target_def split: if_splits)
  then have r': "r' = assign (fst (insertSubrouter r method url))
      (ToLower method, pathKeys (Split url)) (set_errorHandler erh)"
    using assms by (simp add: SetErrorHandler_eq target_def)
  show "errorHandlerOf r' q = (if q = target method url then erh else errorHandlerOf r q)"
    unfolding r' target_def by (rule errorHandlerOf_insert_assign_error)
  show "routeOf r' q = routeOf r q"
    unfolding r' routeOf_def by (rule slot_insert_assign_other) simp_all
  show "defaultRouteOf r' q = defaultRouteOf r q"
    unfolding r' defaultRouteOf_def by (rule slot_insert_assign_other) simp_all
qed

text \<open>A slot that is set stays as it is under every later successful registration.\<close>

lemma register_routeOf:
  "register r x = Inr r' \<Longrightarrow> routeOf r q \<noteq> NilRoute \<Longrightarrow> routeOf r' q = routeOf r q"
  by (cases x) (auto simp: Handle_Inr SetDefault_Inr SetErrorHandler_Inr)

lemma register_defaultRouteOf:
  "register r x = Inr r' \<Longrightarrow> defaultRouteOf r q \<noteq> NilRoute
   \<Longrightarrow> defaultRouteOf r' q = defaultRouteOf r q"
  by (cases x) (auto simp: Handle_Inr SetDefault_Inr SetErrorHandler_Inr)

lemma register_errorHandlerOf:
  "register r x = Inr r' \<Longrightarrow> errorHandlerOf r q \<noteq> NilErrorHandler
   \<Longrightarrow> errorHandlerOf r' q = errorHandlerOf r q"
  by (cases x) (auto simp: Handle_Inr SetDefault_Inr SetErrorHandler_Inr)

lemma registerAll_routeOf:
  "registerAll r xs = Inr r' \<Longrightarrow> routeOf r q \<noteq> NilRoute \<Longrightarrow> routeOf r' q = routeOf r q"
proof (induction xs arbitrary: r)
  case Nil
  then show ?case by simp
next
  case (Cons x xs)
  from Cons.prems(1) obtain r1 where r1: "register r x = Inr r1" and rest: "registerAll r1 xs = Inr r'"
    by (auto split: sum.splits)
  have "routeOf r1 q = routeOf r q" using r1 Cons.prems(2) by (rule register_routeOf)
  with Cons.IH [OF rest] Cons.prems(2) show ?case by simp
qed

lemma registerAll_defaultRouteOf:
  "registerAll r xs = Inr r' \<Longrightarrow> defaultRouteOf r q \<noteq> NilRoute
   \<Longrightarrow> defaultRouteOf r' q = defaultRouteOf r q"
proof (induction xs arbitrary: r)
  case Nil
  then show ?case by simp
next
  case (Cons x xs)
  from Cons.prems(1) obtain r1 where r1: "register r x = Inr r1" and rest: "registerAll r1 xs = Inr r'"
    by (auto split: sum.splits)
  have "defaultRouteOf r1 q = defaultRouteOf r q" using r1 Cons.prems(2) by (rule register_defaultRouteOf)
  with Cons.IH [OF rest] Cons.prems(2) show ?case by simp
qed

lemma registerAll_errorHandlerOf:
  "registerAll r xs = Inr r' \<Longrightarrow> errorHandlerOf r q \<noteq> NilErrorHandler
   \<Longrightarrow> errorHandlerOf r' q = errorHandlerOf r q"
proof (induction xs arbitrary: r)
  case Nil
  then show ?case by simp
next
  case (Cons x xs)
  from Cons.prems(1) obtain r1 where r1: "register r x = Inr r1" and rest: "registerAll r1 xs = Inr r'"
    by (auto split: sum.splits)
  have "errorHandlerOf r1 q = errorHandlerOf r q" using r1 Cons.prems(2) by (rule register_errorHandlerOf)
  with Cons.IH [OF rest] Cons.prems(2) show ?case by simp
qed

text \<open>A registration in a successful sequence is still in its slot at the end.\<close>

lemma registerAll_Handle_mem:
  "registerAll r xs = Inr r' \<Longrightarrow> DoHandle method url rt \<in> set xs \<Longrightarrow> rt \<noteq> NilRoute
   \<Longrightarrow> routeOf r' (target method url) = rt"
proof (induction xs arbitrary: r)
  case Nil
  then show ?case by simp
next
  case (Cons x xs)
  from Cons.prems(1) obtain r1 where r1: "register r x = Inr r1" and rest: "registerAll r1 xs = Inr r'"
    by (auto split: sum.splits)
  show ?case
  proof (cases "x = DoHandle method url rt")
    case True
    then have "routeOf r1 (target method url) = rt" using r1 by (simp add: Handle_Inr)
    with registerAll_routeOf [OF rest, of "target method url"] Cons.prems(3) show ?thesis by simp
  next
    case False
    then show ?thesis using Cons rest by auto
  qed
qed

lemma registerAll_SetDefault_mem:
  "registerAll r xs = Inr r' \<Longrightarrow> DoSetDefault method url rt \<in> set xs \<Longrightarrow> rt \<noteq> NilRoute
   \<Longrightarrow> defaultRouteOf r' (target method url) = rt"
proof (induction xs arbitrary: r)
  case Nil
  then show ?case by simp
next
  case (Cons x xs)
  from Cons.prems(1) obtain r1 where r1: "register r x = Inr r1" and rest: "registerAll r1 xs = Inr r'"
    by (auto split: sum.splits)
  show ?case
  proof (cases "x = DoSetDefault method url rt")
    case True
    then have "defaultRouteOf r1 (target method url) = rt" using r1 by (simp add: SetDefault_Inr)
    with registerAll_defaultRouteOf [OF rest, of "target method url"] Cons.prems(3) show ?thesis by simp
  next
    case False
    then show ?thesis using Cons rest by auto
  qed
qed

lemma registerAll_SetErrorHandler_mem:
  "registerAll r xs = Inr r' \<Longrightarrow> DoSetErrorHandler method url erh \<in> set xs
   \<Longrightarrow> erh \<noteq> NilErrorHandler \<Longrightarrow> errorHandlerOf r' (target method url) = erh"
proof (induction xs arbitrary: r)
  case Nil
  then show ?case by simp
next
  case (Cons x xs)
  from Cons.prems(1) obtain r1 where r1: "register r x = Inr r1" and rest: "registerAll r1 xs = Inr r'"
    by (auto split: sum.splits)
  show ?case
  proof (cases "x = DoSetErrorHandler method url erh")
    case True
    then have "errorHandlerOf r1 (target method url) = erh" using r1 by (simp add: SetErrorHandler_Inr)
    with registerAll_errorHandlerOf [OF rest, of "target method url"] Cons.prems(3) show ?thesis by simp
  next
    case False
    then show ?thesis using Cons rest by auto
  qed
qed

text \<open>findRoute on a path whose node has a route.\<close>

lemma findLoop_route:
  "nodeAt (pathKeys parts) sr = Some n \<Longrightarrow> route n \<noteq> NilRoute
   \<Longrightarrow> \<exists>erh'. findLoop parts sr rt erh args = (route n, erh', args)"
proof (induction parts arbitrary: sr rt erh)
  case Nil
  then show ?case by simp
next
  case (Cons p ps)
  show ?case
  proof (cases "p = []")
    case True
    then show ?thesis using Cons by (simp add: Let_def)
  next
    case False
    with Cons.prems(1) obtain tmp where tmp: "children sr p = Some tmp"
      and n: "nodeAt (pathKeys ps) tmp = Some n"
      by (auto split: option.splits)
    from Cons.IH [OF n Cons.prems(2)] show ?thesis using False tmp by (simp add: Let_def)
  qed
qed

lemma findRoute_route:
  assumes "routeOf r (ToLower method, pathKeys parts) = rt" and "rt \<noteq> NilRoute"
  shows "\<exists>erh. findRoute r method parts = (rt, erh, [])"
proof -
  from assms obtain sr n where sr: "roots r (ToLower method) = Some sr"
    and n: "nodeAt (pathKeys parts) sr = Some n" and rt: "route n = rt"
    by (auto simp: routeOf_def deref_def split: option.splits)
  from findLoop_route [OF n] assms(2) rt sr show ?thesis
    by (simp add: findRoute_def Let_def)
qed

lemma inheritedDefault_simps [simp]:
  "inheritedDefault [] rt = rt"
  "inheritedDefault (sr # ns) rt =
     inheritedDefault ns (if defaultRoute sr \<noteq> NilRoute then defaultRoute sr else rt)"
  by (simp_all add: inheritedDefault_def)

lemma inheritedErrorHandler_simps [simp]:
  "inheritedErrorHandler [] erh = erh"
  "inheritedErrorHandler (sr # ns) erh =
     inheritedErrorHandler ns (if errorHandler sr \<noteq> NilErrorHandler then errorHandler sr else erh)"
  by (simp_all add: inheritedErrorHandler_def)

lemma inheritedDefault_snoc:
  "inheritedDefault (ns @ [sr]) rt =
     (if defaultRoute sr \<noteq> NilRoute then defaultRoute sr else inheritedDefault ns rt)"
  by (simp add: inheritedDefault_def)

lemma inheritedErrorHandler_snoc:
  "inheritedErrorHandler (ns @ [sr]) erh =
     (if errorHandler sr \<noteq> NilErrorHandler then errorHandler sr else inheritedErrorHandler ns erh)"
  by (simp add: inheritedErrorHandler_def)

lemma inheritedDefault_not_Nil: "rt \<noteq> NilRoute \<Longrightarrow> inheritedDefault ns rt \<noteq> NilRoute"
  by (induction ns arbitrary: rt) simp_all

lemma inheritedErrorHandler_not_Nil:
  "erh \<noteq> NilErrorHandler \<Longrightarrow> inheritedErrorHandler ns erh \<noteq> NilErrorHandler"
  by (induction ns arbitrary: erh) simp_all

lemma walk_hd: "walk parts sr = Some (ns, caps) \<Longrightarrow> \<exists>ns'. ns = sr # ns'"
  by (cases parts) (auto split: if_splits option.splits)

lemma walk_findLoop:
  "walk pre sr = Some (ns, caps) \<Longrightarrow>
   findLoop (pre @ rest) sr rt erh args =
     findLoop rest (last ns) (inheritedDefault (butlast ns) rt)
       (inheritedErrorHandler (butlast ns) erh) (args @ caps)"
proof (induction pre arbitrary: sr rt erh args ns caps)
  case Nil
  then show ?case by auto
next
  case (Cons p ps)
  show ?case
  proof (cases "p = []")
    case True
    with Cons.prems obtain ns' where w: "walk ps sr = Some (ns', caps)" and ns: "ns = sr # ns'"
      by (auto split: option.splits)
    from walk_hd [OF w] have "ns' \<noteq> []" by auto
    with Cons.IH [OF w] show ?thesis using True ns by (simp add: Let_def)
  next
    case False
    show ?thesis
    proof (cases "children sr p")
      case (Some tmp)
      with False Cons.prems obtain ns' where w: "walk ps tmp = Some (ns', caps)" and ns: "ns = sr # ns'"
        by (auto split: option.splits)
      from walk_hd [OF w] have "ns' \<noteq> []" by auto
      with Cons.IH [OF w] show ?thesis using False Some ns by (simp add: Let_def)
    next
      case None
      with False Cons.prems obtain tmp ns' caps' where star: "children sr ''*'' = Some tmp"
        and w: "walk ps tmp = Some (ns', caps')" and ns: "ns = sr # ns'" and caps: "caps = p # caps'"
        by (auto split: option.splits)
      from walk_hd [OF w] have "ns' \<noteq> []" by auto
      with Cons.IH [OF w] show ?thesis using False None star ns caps by (simp add: Let_def)
    qed
  qed
qed

lemma findLoop_unmatched:
  "pathPart \<noteq> [] \<Longrightarrow> children sr pathPart = None \<Longrightarrow> children sr ''*'' = None \<Longrightarrow>
   findLoop (pathPart # rest) sr rt erh args =
     ((if defaultRoute sr \<noteq> NilRoute then defaultRoute sr else rt),
      (if errorHandler sr \<noteq> NilErrorHandler then errorHandler sr else erh), args)"
  by (simp add: Let_def)

lemma findRoute_unmatched:
  assumes root: "roots r (ToLower method) = Some root"
    and w: "walk pre root = Some (ns, caps)"
    and seg: "seg \<noteq> []" "children (last ns) seg = None" "children (last ns) ''*'' = None"
  shows "findRoute r method (pre @ seg # rest) =
           (inheritedDefault ns nullRoute, inheritedErrorHandler ns nullErrorHandler, caps)"
proof -
  from walk_hd [OF w] obtain ns' where ns: "ns = root # ns'" by blast
  then have bl: "ns = butlast ns @ [last ns]" by simp
  have "findRoute r method (pre @ seg # rest) =
      findLoop (pre @ seg # rest) root
        (if defaultRoute root \<noteq> NilRoute then defaultRoute root else nullRoute)
        (if errorHandler root \<noteq> NilErrorHandler then errorHandler root else nullErrorHandler) []"
    using root by (simp add: findRoute_def Let_def)
  also have "\<dots> = findLoop (seg # rest) (last ns)
      (inheritedDefault (butlast ns) (if defaultRoute root \<noteq> NilRoute then defaultRoute root else nullRoute))
      (inheritedErrorHandler (butlast ns)
         (if errorHandler root \<noteq> NilErrorHandler then errorHandler root else nullErrorHandler)) ([] @ caps)"
    by (rule walk_findLoop [OF w])
  also have "\<dots> =
      (inheritedDefault (butlast ns @ [last ns])
         (if defaultRoute root \<noteq> NilRoute then defaultRoute root else nullRoute),
       inheritedErrorHandler (butlast ns @ [last ns])
         (if errorHandler root \<noteq> NilErrorHandler then errorHandler root else nullErrorHandler), caps)"
    using seg by (simp add: findLoop_unmatched inheritedDefault_snoc inheritedErrorHandler_snoc)
  also have "\<dots> = (inheritedDefault ns nullRoute, inheritedErrorHandler ns nullErrorHandler, caps)"
    unfolding bl [symmetric] by (simp add: ns)
  finally show ?thesis .
qed

lemma wildcards_simps [simp]:
  "wildcards [] = 0"
  "wildcards (k # ks) = (if k = ''*'' then Suc (wildcards ks) else wildcards ks)"
  by (simp_all add: wildcards_def)

lemma findLoop_wildcards:
  "nodeAt ks sr = Some n \<Longrightarrow> route n \<noteq> NilRoute \<Longrightarrow> length vals = wildcards ks
   \<Longrightarrow> unshadowed ks vals sr \<Longrightarrow> pathKeys parts = subst ks vals
   \<Longrightarrow> \<exists>erh'. findLoop parts sr rt erh args = (route n, erh', args @ vals)"
proof (induction parts arbitrary: ks vals sr rt erh args)
  case Nil
  then have "ks = []" by (cases ks) (auto split: list.splits if_splits)
  with Nil show ?case by simp
next
  case (Cons p ps)
  show ?case
  proof (cases "p = []")
    case True
    with Cons.prems(5) have "pathKeys ps = subst ks vals" by simp
    from Cons.IH [OF Cons.prems(1-4) this] show ?thesis using True by (simp add: Let_def)
  next
    case False
    with Cons.prems(5) obtain k ks' where ks: "ks = k # ks'" by (cases ks) auto
    show ?thesis
    proof (cases "k = ''*''")
      case True
      with Cons.prems(3) ks obtain v vals' where vals: "vals = v # vals'" by (cases vals) auto
      from Cons.prems(5) False ks True vals have pv: "p = v" and rest: "pathKeys ps = subst ks' vals'"
        by auto
      from Cons.prems(1) ks True obtain tmp where star: "children sr ''*'' = Some tmp"
        and n: "nodeAt ks' tmp = Some n"
        by (auto split: option.splits)
      from Cons.prems(4) ks True vals star have none: "children sr v = None"
        and un: "unshadowed ks' vals' tmp" by auto
      from Cons.prems(3) ks True vals have len: "length vals' = wildcards ks'" by simp
      from Cons.IH [OF n Cons.prems(2) len un rest, where args = "args @ [v]"]
      have "\<And>a b. \<exists>erh'. findLoop ps tmp a b (args @ [v]) = (route n, erh', args @ v # vals')"
        by simp
      then show ?thesis using False pv none star vals by (simp add: Let_def)
    next
      case notstar: False
      from Cons.prems(5) False ks notstar have pk: "p = k" and rest: "pathKeys ps = subst ks' vals"
        by auto
      from Cons.prems(1) ks obtain tmp where lit: "children sr k = Some tmp"
        and n: "nodeAt ks' tmp = Some n"
        by (auto split: option.splits)
      from Cons.prems(4) ks notstar lit have un: "unshadowed ks' vals tmp" by simp
      from Cons.prems(3) ks notstar have len: "length vals = wildcards ks'" by simp
      from Cons.IH [OF n Cons.prems(2) len un rest]
      show ?thesis using False pk lit by (simp add: Let_def)
    qed
  qed
qed

lemma findRoute_wildcards:
  assumes rt: "routeOf r (ToLower method, ks) = rt" "rt \<noteq> NilRoute"
    and root: "roots r (ToLower method) = Some root"
    and len: "length vals = wildcards ks"
    and un: "unshadowed ks vals root"
    and parts: "pathKeys parts = subst ks vals"
  shows "\<exists>erh. findRoute r method parts = (rt, erh, vals)"
proof -
  from rt root obtain n where n: "nodeAt ks root = Some n" and rn: "route n = rt"
    by (auto simp: routeOf_def deref_def split: option.splits)
  from rn rt(2) have "route n \<noteq> NilRoute" by simp
  from findLoop_wildcards [OF n this len un parts, where args = "[]"] rn
  have "\<And>a b. \<exists>erh'. findLoop parts root a b [] = (rt, erh', vals)" by simp
  with root show ?thesis by (simp add: findRoute_def Let_def)
qed

lemma findLoop_not_Nil:
  "rt \<noteq> NilRoute \<Longrightarrow> erh \<noteq> NilErrorHandler \<Longrightarrow>
   fst (findLoop parts sr rt erh args) \<noteq> NilRoute \<and>
   fst (snd (findLoop parts sr rt erh args)) \<noteq> NilErrorHandler"
proof (induction parts arbitrary: sr rt erh args)
  case Nil
  then show ?case by simp
next
  case (Cons p ps)
  then show ?case by (simp add: Let_def split: option.splits)
qed

lemma findRoute_not_Nil:
  "fst (findRoute r method parts) \<noteq> NilRoute \<and>
   fst (snd (findRoute r method parts)) \<noteq> NilErrorHandler"
  by (simp add: findRoute_def Let_def findLoop_not_Nil split: option.splits)

lemma insertLoop_pathKeys: "insertLoop (pathKeys parts) sr = insertLoop parts sr"
  by (induction parts arbitrary: sr) (simp_all split: option.splits)

lemma insertSubrouter_pathKeys:
  "pathKeys (Split url) = pathKeys (Split url') \<Longrightarrow>
   insertSubrouter r method url = insertSubrouter r method url'"
proof -
  assume eq: "pathKeys (Split url) = pathKeys (Split url')"
  have "insertLoop (Split url) sr = insertLoop (Split url') sr" for sr :: "('a, 'b) subrouter"
    using insertLoop_pathKeys [of "Split url" sr] insertLoop_pathKeys [of "Split url'" sr] eq
    by simp
  with eq show ?thesis by (simp add: insertSubrouter_def Let_def)
qed

lemma Split_no_slash: "CHR ''/'' \<notin> set x \<Longrightarrow> Split x = [x]"
  by (induction x) auto

text \<open>The definitions that the evaluation of a concrete router unfolds.\<close>

lemmas eval_defs = Handle_def SetDefault_def SetErrorHandler_def insertSubrouter_def deref_def
  assign_def findRoute_def NewRouter_def newSubrouter_def pathKeys_def Let_def ToLower_def
  lowerChar_def resolve_def

section \<open>The claims\<close>

subsection \<open>C6: a method without a root\<close>

text \<open>
  C6. For every path, \<^verbatim>\<open>findRoute\<close> with a method whose lower-cased form has no root in the
  router returns the built-in route \<^verbatim>\<open>nullRoute\<close>, the built-in error handler
  \<^verbatim>\<open>nullErrorHandler\<close> and no args. \<^verbatim>\<open>findRoute\<close> has no failing branch: its result is always
  such a triple.
\<close>

theorem C6_unknown_method:
  "roots r (ToLower method) = None \<Longrightarrow>
   findRoute r method pathParts = (nullRoute, nullErrorHandler, [])"
  by (simp add: findRoute_def)

text \<open>A router with a route for \<open>GET\<close> only, asked for \<open>POST\<close>.\<close>

theorem C6_unknown_method_witness:
  "\<exists>r :: (nat, nat) Router. Handle NewRouter ''GET'' ''/foo'' (RouteFn (1::nat)) = Inr r
      \<and> roots r (ToLower ''POST'') = None
      \<and> findRoute r ''POST'' (Split ''/foo'') = (nullRoute, nullErrorHandler, [])"
proof -
  obtain r :: "(nat, nat) Router"
    where r: "Handle NewRouter ''GET'' ''/foo'' (RouteFn (1::nat)) = Inr r"
    by (simp add: eval_defs)
  then have none: "roots r (ToLower ''POST'') = None"
    by (auto simp: eval_defs)
  from C6_unknown_method [OF none] r none show ?thesis by blast
qed

subsection \<open>C2: a registered route is found at its own path\<close>

text \<open>
  C2. Whenever a sequence of registrations succeeds and contains \<^verbatim>\<open>Handle(method, url, rt)\<close>
  with a handler \<open>rt\<close> (a function, not \<^verbatim>\<open>nil\<close>), \<^verbatim>\<open>findRoute\<close> with that method and the parts
  of exactly that path returns \<open>rt\<close> with empty args, whatever else was registered before
  or after. The path may or may not end in a slash.
\<close>

theorem C2_exact_route:
  assumes "registerAll r0 xs = Inr r"
    and "DoHandle method url rt \<in> set xs"
    and "rt \<noteq> NilRoute"
  shows "\<exists>erh. findRoute r method (Split url) = (rt, erh, [])"
proof -
  from assms have "routeOf r (target method url) = rt"
    by (rule registerAll_Handle_mem)
  then have "routeOf r (ToLower method, pathKeys (Split url)) = rt"
    by (simp add: target_def)
  then show ?thesis using assms(3) by (rule findRoute_route)
qed

text \<open>The route at \<open>/foo/bar\<close>, with a default above it and a wildcard sibling beside it.\<close>

theorem C2_exact_route_witness:
  "\<exists>(r :: (nat, nat) Router) erh. registerAll NewRouter
        [DoSetDefault ''GET'' ''/'' (RouteFn (1::nat)), DoHandle ''GET'' ''/foo/bar'' (RouteFn 4),
         DoHandle ''GET'' ''/foo/*'' (RouteFn 5)] = Inr r
      \<and> DoHandle ''GET'' ''/foo/bar'' (RouteFn 4) \<in> set
        [DoSetDefault ''GET'' ''/'' (RouteFn (1::nat)), DoHandle ''GET'' ''/foo/bar'' (RouteFn 4),
         DoHandle ''GET'' ''/foo/*'' (RouteFn 5)]
      \<and> RouteFn (4::nat) \<noteq> NilRoute
      \<and> findRoute r ''GET'' (Split ''/foo/bar'') = (RouteFn 4, erh, [])"
proof -
  obtain r :: "(nat, nat) Router" where r: "registerAll NewRouter
        [DoSetDefault ''GET'' ''/'' (RouteFn (1::nat)), DoHandle ''GET'' ''/foo/bar'' (RouteFn 4),
         DoHandle ''GET'' ''/foo/*'' (RouteFn 5)] = Inr r"
    by (simp add: eval_defs)
  have mem: "DoHandle ''GET'' ''/foo/bar'' (RouteFn 4) \<in> set
        [DoSetDefault ''GET'' ''/'' (RouteFn (1::nat)), DoHandle ''GET'' ''/foo/bar'' (RouteFn 4),
         DoHandle ''GET'' ''/foo/*'' (RouteFn 5)]" by simp
  have nn: "RouteFn (4::nat) \<noteq> NilRoute" by simp
  from C2_exact_route [OF r mem nn] r mem nn show ?thesis by blast
qed

subsection \<open>C7: duplicate registrations panic, and the three slots are independent\<close>

text \<open>
  C7. Each of \<^verbatim>\<open>Handle\<close>, \<^verbatim>\<open>SetDefault\<close> and \<^verbatim>\<open>SetErrorHandler\<close> panics exactly when its slot
  (\<^verbatim>\<open>route\<close>, \<^verbatim>\<open>defaultRoute\<close>, \<^verbatim>\<open>errorHandler\<close>) of the terminal node is already set, and
  otherwise sets that slot of the terminal node and leaves the two other slots of every
  node as they were. So a second call for the same method and path panics, also after
  any further successful registrations, once a first call has stored a handler (a
  function, not \<^verbatim>\<open>nil\<close>) there; and at a node whose three slots are empty the three
  registrations succeed one after the other.
\<close>

theorem C7_duplicate_registration:
  "(Handle r method url rt =
      (if routeOf r (target method url) \<noteq> NilRoute
       then Inl (Panic (''router: already exists a route for '' @ method @ '' '' @ url))
       else Inr (assign (fst (insertSubrouter r method url)) (target method url) (set_route rt))))
   \<and> (SetDefault r method url rt =
      (if defaultRouteOf r (target method url) \<noteq> NilRoute
       then Inl (Panic (''router: already exists a default route for '' @ method @ '' '' @ url))
       else Inr (assign (fst (insertSubrouter r method url)) (target method url)
                   (set_defaultRoute rt))))
   \<and> (SetErrorHandler r method url erh =
      (if errorHandlerOf r (target method url) \<noteq> NilErrorHandler
       then Inl (Panic (''router: already exists an error handler for '' @ method @ '' '' @ url))
       else Inr (assign (fst (insertSubrouter r method url)) (target method url)
                   (set_errorHandler erh))))
   \<and> (Handle r method url rt = Inr r1 \<longrightarrow>
        routeOf r1 = (routeOf r)(target method url := rt) \<and> defaultRouteOf r1 = defaultRouteOf r
        \<and> errorHandlerOf r1 = errorHandlerOf r)
   \<and> (SetDefault r method url rt = Inr r2 \<longrightarrow>
        defaultRouteOf r2 = (defaultRouteOf r)(target method url := rt) \<and> routeOf r2 = routeOf r
        \<and> errorHandlerOf r2 = errorHandlerOf r)
   \<and> (SetErrorHandler r method url erh = Inr r3 \<longrightarrow>
        errorHandlerOf r3 = (errorHandlerOf r)(target method url := erh) \<and> routeOf r3 = routeOf r
        \<and> defaultRouteOf r3 = defaultRouteOf r)
   \<and> (registerAll r xs = Inr r' \<and> DoHandle method url rt \<in> set xs \<and> rt \<noteq> NilRoute \<longrightarrow>
        Handle r' method url rt' =
          Inl (Panic (''router: already exists a route for '' @ method @ '' '' @ url)))
   \<and> (registerAll r xs = Inr r' \<and> DoSetDefault method url rt \<in> set xs \<and> rt \<noteq> NilRoute \<longrightarrow>
        SetDefault r' method url rt' =
          Inl (Panic (''router: already exists a default route for '' @ method @ '' '' @ url)))
   \<and> (registerAll r xs = Inr r' \<and> DoSetErrorHandler method url erh \<in> set xs
        \<and> erh \<noteq> NilErrorHandler \<longrightarrow>
        SetErrorHandler r' method url erh' =
          Inl (Panic (''router: already exists an error handler for '' @ method @ '' '' @ url)))
   \<and> (routeOf r (target method url) = NilRoute
        \<and> defaultRouteOf r (target method url) = NilRoute
        \<and> errorHandlerOf r (target method url) = NilErrorHandler \<longrightarrow>
        (\<exists>ra. registerAll r [DoHandle method url rt, DoSetDefault method url rt',
                 DoSetErrorHandler method url erh] = Inr ra
           \<and> routeOf ra (target method url) = rt
           \<and> defaultRouteOf ra (target method url) = rt'
           \<and> errorHandlerOf ra (target method url) = erh))"
proof (intro conjI impI)
  show "Handle r method url rt =
      (if routeOf r (target method url) \<noteq> NilRoute
       then Inl (Panic (''router: already exists a route for '' @ method @ '' '' @ url))
       else Inr (assign (fst (insertSubrouter r method url)) (target method url) (set_route rt)))"
    by (simp add: Handle_eq target_def)
  show "SetDefault r method url rt =
      (if defaultRouteOf r (target method url) \<noteq> NilRoute
       then Inl (Panic (''router: already exists a default route for '' @ method @ '' '' @ url))
       else Inr (assign (fst (insertSubrouter r method url)) (target method url)
                   (set_defaultRoute rt)))"
    by (simp add: SetDefault_eq target_def)
  show "SetErrorHandler r method url erh =
      (if errorHandlerOf r (target method url) \<noteq> NilErrorHandler
       then Inl (Panic (''router: already exists an error handler for '' @ method @ '' '' @ url))
       else Inr (assign (fst (insertSubrouter r method url)) (target method url)
                   (set_errorHandler erh)))"
    by (simp add: SetErrorHandler_eq target_def)
next
  assume h: "Handle r method url rt = Inr r1"
  show "routeOf r1 = (routeOf r)(target method url := rt)"
    by (rule ext) (simp add: Handle_Inr(2) [OF h])
  show "defaultRouteOf r1 = defaultRouteOf r" by (rule ext) (rule Handle_Inr(3) [OF h])
  show "errorHandlerOf r1 = errorHandlerOf r" by (rule ext) (rule Handle_Inr(4) [OF h])
next
  assume h: "SetDefault r method url rt = Inr r2"
  show "defaultRouteOf r2 = (defaultRouteOf r)(target method url := rt)"
    by (rule ext) (simp add: SetDefault_Inr(2) [OF h])
  show "routeOf r2 = routeOf r" by (rule ext) (rule SetDefault_Inr(3) [OF h])
  show "errorHandlerOf r2 = errorHandlerOf r" by (rule ext) (rule SetDefault_Inr(4) [OF h])
next
  assume h: "SetErrorHandler r method url erh = Inr r3"
  show "errorHandlerOf r3 = (errorHandlerOf r)(target method url := erh)"
    by (rule ext) (simp add: SetErrorHandler_Inr(2) [OF h])
  show "routeOf r3 = routeOf r" by (rule ext) (rule SetErrorHandler_Inr(3) [OF h])
  show "defaultRouteOf r3 = defaultRouteOf r" by (rule ext) (rule SetErrorHandler_Inr(4) [OF h])
next
  assume "registerAll r xs = Inr r' \<and> DoHandle method url rt \<in> set xs \<and> rt \<noteq> NilRoute"
  then have "routeOf r' (target method url) = rt" and "rt \<noteq> NilRoute"
    using registerAll_Handle_mem by blast+
  then show "Handle r' method url rt' =
      Inl (Panic (''router: already exists a route for '' @ method @ '' '' @ url))"
    by (simp add: Handle_eq target_def)
next
  assume "registerAll r xs = Inr r' \<and> DoSetDefault method url rt \<in> set xs \<and> rt \<noteq> NilRoute"
  then have "defaultRouteOf r' (target method url) = rt" and "rt \<noteq> NilRoute"
    using registerAll_SetDefault_mem by blast+
  then show "SetDefault r' method url rt' =
      Inl (Panic (''router: already exists a default route for '' @ method @ '' '' @ url))"
    by (simp add: SetDefault_eq target_def)
next
  assume "registerAll r xs = Inr r' \<and> DoSetErrorHandler method url erh \<in> set xs
      \<and> erh \<noteq> NilErrorHandler"
  then have "errorHandlerOf r' (target method url) = erh" and "erh \<noteq> NilErrorHandler"
    using registerAll_SetErrorHandler_mem by blast+
  then show "SetErrorHandler r' method url erh' =
      Inl (Panic (''router: already exists an error handler for '' @ method @ '' '' @ url))"
    by (simp add: SetErrorHandler_eq target_def)
next
  assume a: "routeOf r (target method url) = NilRoute
      \<and> defaultRouteOf r (target method url) = NilRoute
      \<and> errorHandlerOf r (target method url) = NilErrorHandler"
  then obtain ra where ra: "Handle r method url rt = Inr ra"
    by (simp add: Handle_eq target_def)
  from a have "defaultRouteOf ra (target method url) = NilRoute"
    by (simp add: Handle_Inr(3) [OF ra])
  then obtain rb where rb: "SetDefault ra method url rt' = Inr rb"
    by (simp add: SetDefault_eq target_def)
  from a have "errorHandlerOf rb (target method url) = NilErrorHandler"
    by (simp add: SetDefault_Inr(4) [OF rb] Handle_Inr(4) [OF ra])
  then obtain rc where rc: "SetErrorHandler rb method url erh = Inr rc"
    by (simp add: SetErrorHandler_eq target_def)
  have "registerAll r [DoHandle method url rt, DoSetDefault method url rt',
      DoSetErrorHandler method url erh] = Inr rc"
    by (simp add: ra rb rc)
  moreover have "routeOf rc (target method url) = rt"
    by (simp add: SetErrorHandler_Inr(3) [OF rc] SetDefault_Inr(3) [OF rb] Handle_Inr(2) [OF ra])
  moreover have "defaultRouteOf rc (target method url) = rt'"
    by (simp add: SetErrorHandler_Inr(4) [OF rc] SetDefault_Inr(2) [OF rb])
  moreover have "errorHandlerOf rc (target method url) = erh"
    by (simp add: SetErrorHandler_Inr(2) [OF rc])
  ultimately show "\<exists>ra. registerAll r [DoHandle method url rt, DoSetDefault method url rt',
                 DoSetErrorHandler method url erh] = Inr ra
           \<and> routeOf ra (target method url) = rt
           \<and> defaultRouteOf ra (target method url) = rt'
           \<and> errorHandlerOf ra (target method url) = erh"
    by blast
qed

text \<open>The three registrations at \<open>GET /foo\<close> of a new router, and each one repeated.\<close>

theorem C7_duplicate_registration_witness:
  "\<exists>(r1 :: (nat, nat) Router) (r2 :: (nat, nat) Router) (r3 :: (nat, nat) Router)
      (r' :: (nat, nat) Router).
      Handle NewRouter ''GET'' ''/foo'' (RouteFn (1::nat)) = Inr r1
    \<and> SetDefault NewRouter ''GET'' ''/foo'' (RouteFn (1::nat)) = Inr r2
    \<and> SetErrorHandler NewRouter ''GET'' ''/foo'' (ErrorHandlerFn (2::nat)) = Inr r3
    \<and> registerAll NewRouter
          [DoHandle ''GET'' ''/foo'' (RouteFn (1::nat)), DoSetDefault ''GET'' ''/foo'' (RouteFn (1::nat)),
           DoSetErrorHandler ''GET'' ''/foo'' (ErrorHandlerFn (2::nat))] = Inr r'
    \<and> routeOf r1 (target ''GET'' ''/foo'') = RouteFn (1::nat)
    \<and> defaultRouteOf r2 (target ''GET'' ''/foo'') = RouteFn (1::nat)
    \<and> errorHandlerOf r3 (target ''GET'' ''/foo'') = ErrorHandlerFn (2::nat)
    \<and> Handle r' ''GET'' ''/foo'' (RouteFn (7::nat)) =
          Inl (Panic ''router: already exists a route for GET /foo'')
    \<and> SetDefault r' ''GET'' ''/foo'' (RouteFn (7::nat)) =
          Inl (Panic ''router: already exists a default route for GET /foo'')
    \<and> SetErrorHandler r' ''GET'' ''/foo'' (ErrorHandlerFn (8::nat)) =
          Inl (Panic ''router: already exists an error handler for GET /foo'')
    \<and> routeOf (NewRouter :: (nat, nat) Router) (target ''GET'' ''/foo'') = NilRoute
    \<and> defaultRouteOf (NewRouter :: (nat, nat) Router) (target ''GET'' ''/foo'') = NilRoute
    \<and> errorHandlerOf (NewRouter :: (nat, nat) Router) (target ''GET'' ''/foo'') = NilErrorHandler
    \<and> (\<exists>ra :: (nat, nat) Router. registerAll NewRouter
          [DoHandle ''GET'' ''/foo'' (RouteFn (1::nat)), DoSetDefault ''GET'' ''/foo'' (RouteFn (7::nat)),
           DoSetErrorHandler ''GET'' ''/foo'' (ErrorHandlerFn (2::nat))] = Inr ra
        \<and> routeOf ra (target ''GET'' ''/foo'') = RouteFn 1
        \<and> defaultRouteOf ra (target ''GET'' ''/foo'') = RouteFn 7
        \<and> errorHandlerOf ra (target ''GET'' ''/foo'') = ErrorHandlerFn 2)"
proof -
  obtain r1 :: "(nat, nat) Router"
    where r1: "Handle NewRouter ''GET'' ''/foo'' (RouteFn (1::nat)) = Inr r1"
    by (simp add: eval_defs)
  obtain r2 :: "(nat, nat) Router"
    where r2: "SetDefault NewRouter ''GET'' ''/foo'' (RouteFn (1::nat)) = Inr r2"
    by (simp add: eval_defs)
  obtain r3 :: "(nat, nat) Router"
    where r3: "SetErrorHandler NewRouter ''GET'' ''/foo'' (ErrorHandlerFn (2::nat)) = Inr r3"
    by (simp add: eval_defs)
  obtain r' :: "(nat, nat) Router" where r': "registerAll NewRouter
          [DoHandle ''GET'' ''/foo'' (RouteFn (1::nat)), DoSetDefault ''GET'' ''/foo'' (RouteFn (1::nat)),
           DoSetErrorHandler ''GET'' ''/foo'' (ErrorHandlerFn (2::nat))] = Inr r'"
    by (simp add: eval_defs)
  let ?xs = "[DoHandle ''GET'' ''/foo'' (RouteFn (1::nat)),
      DoSetDefault ''GET'' ''/foo'' (RouteFn (1::nat)),
      DoSetErrorHandler ''GET'' ''/foo'' (ErrorHandlerFn (2::nat))]"
  have m1: "DoHandle ''GET'' ''/foo'' (RouteFn (1::nat)) \<in> set ?xs"
    and m2: "DoSetDefault ''GET'' ''/foo'' (RouteFn (1::nat)) \<in> set ?xs"
    and m3: "DoSetErrorHandler ''GET'' ''/foo'' (ErrorHandlerFn (2::nat)) \<in> set ?xs"
    and n1: "RouteFn (1::nat) \<noteq> NilRoute"
    and n2: "ErrorHandlerFn (2::nat) \<noteq> NilErrorHandler"
    by simp_all
  have msg: "''router: already exists a route for '' @ ''GET'' @ '' '' @ ''/foo''
        = ''router: already exists a route for GET /foo''"
      "''router: already exists a default route for '' @ ''GET'' @ '' '' @ ''/foo''
        = ''router: already exists a default route for GET /foo''"
      "''router: already exists an error handler for '' @ ''GET'' @ '' '' @ ''/foo''
        = ''router: already exists an error handler for GET /foo''"
    by simp_all
  have e1: "routeOf (NewRouter :: (nat, nat) Router) (target ''GET'' ''/foo'') = NilRoute"
    and e2: "defaultRouteOf (NewRouter :: (nat, nat) Router) (target ''GET'' ''/foo'') = NilRoute"
    and e3: "errorHandlerOf (NewRouter :: (nat, nat) Router) (target ''GET'' ''/foo'')
        = NilErrorHandler"
    by (simp_all add: routeOf_def defaultRouteOf_def errorHandlerOf_def deref_def NewRouter_def)
  note C7 = C7_duplicate_registration [of NewRouter "''GET''" "''/foo''" "RouteFn (1::nat)"
      "ErrorHandlerFn (2::nat)" r1 r2 r3 ?xs r' "RouteFn (7::nat)" "ErrorHandlerFn (8::nat)"]
  from C7 r1 r2 r3 r' m1 m2 m3 n1 n2
  have p: "routeOf r1 = (routeOf (NewRouter :: (nat, nat) Router))(target ''GET'' ''/foo'' := RouteFn 1)
    \<and> defaultRouteOf r2 = (defaultRouteOf (NewRouter :: (nat, nat) Router))(target ''GET'' ''/foo'' := RouteFn 1)
    \<and> errorHandlerOf r3 = (errorHandlerOf (NewRouter :: (nat, nat) Router))(target ''GET'' ''/foo'' := ErrorHandlerFn 2)
    \<and> Handle r' ''GET'' ''/foo'' (RouteFn 7) =
          Inl (Panic ''router: already exists a route for GET /foo'')
    \<and> SetDefault r' ''GET'' ''/foo'' (RouteFn 7) =
          Inl (Panic ''router: already exists a default route for GET /foo'')
    \<and> SetErrorHandler r' ''GET'' ''/foo'' (ErrorHandlerFn 8) =
          Inl (Panic ''router: already exists an error handler for GET /foo'')"
    unfolding msg by blast
  then have q: "routeOf r1 (target ''GET'' ''/foo'') = RouteFn 1
    \<and> defaultRouteOf r2 (target ''GET'' ''/foo'') = RouteFn 1
    \<and> errorHandlerOf r3 (target ''GET'' ''/foo'') = ErrorHandlerFn 2"
    by simp
  from C7 e1 e2 e3
  have i: "\<exists>ra :: (nat, nat) Router. registerAll NewRouter
          [DoHandle ''GET'' ''/foo'' (RouteFn (1::nat)), DoSetDefault ''GET'' ''/foo'' (RouteFn (7::nat)),
           DoSetErrorHandler ''GET'' ''/foo'' (ErrorHandlerFn (2::nat))] = Inr ra
        \<and> routeOf ra (target ''GET'' ''/foo'') = RouteFn 1
        \<and> defaultRouteOf ra (target ''GET'' ''/foo'') = RouteFn 7
        \<and> errorHandlerOf ra (target ''GET'' ''/foo'') = ErrorHandlerFn 2"
    by blast
  show ?thesis
    by (rule exI [of _ r1], rule exI [of _ r2], rule exI [of _ r3], rule exI [of _ r'])
      (intro conjI r1 r2 r3 r' q [THEN conjunct1] q [THEN conjunct2, THEN conjunct1]
        q [THEN conjunct2, THEN conjunct2]
        p [THEN conjunct2, THEN conjunct2, THEN conjunct2, THEN conjunct1]
        p [THEN conjunct2, THEN conjunct2, THEN conjunct2, THEN conjunct2, THEN conjunct1]
        p [THEN conjunct2, THEN conjunct2, THEN conjunct2, THEN conjunct2, THEN conjunct2]
        e1 e2 e3 i)
qed

subsection \<open>C9: paths that differ in empty segments are one registration target\<close>

text \<open>
  C9. Two paths with the same non-empty segments (they differ only in leading, trailing
  or duplicated slashes) give \<^verbatim>\<open>insertSubrouter\<close> the same result, so each of the three
  registration operations succeeds on one exactly when it succeeds on the other, with the
  same router. \<open>/foo\<close>, \<open>foo\<close>, \<open>/foo/\<close> and \<open>//foo\<close> all designate the node \<open>foo\<close> below the
  method's root. After \<^verbatim>\<open>SetDefault(m, "/foo", d)\<close> with a handler \<open>d\<close> (a function, not \<^verbatim>\<open>nil\<close>),
  \<^verbatim>\<open>SetDefault(m, "/foo/", d')\<close> panics as a duplicate; and at match time, when the node \<open>foo\<close>
  has no route, \<open>/foo/\<close> resolves to \<open>d\<close> while \<open>/foo\<close> resolves to the default of the root (the
  built-in route if the root has none).
\<close>

theorem C9_same_target:
  "(pathKeys (Split url) = pathKeys (Split url') \<longrightarrow>
       insertSubrouter r method url = insertSubrouter r method url'
     \<and> (Handle r method url rt = Inr r1 \<longleftrightarrow> Handle r method url' rt = Inr r1)
     \<and> (SetDefault r method url rt = Inr r1 \<longleftrightarrow> SetDefault r method url' rt = Inr r1)
     \<and> (SetErrorHandler r method url erh = Inr r1
          \<longleftrightarrow> SetErrorHandler r method url' erh = Inr r1))
   \<and> target method ''/foo'' = (ToLower method, [''foo''])
   \<and> target method ''foo'' = (ToLower method, [''foo''])
   \<and> target method ''/foo/'' = (ToLower method, [''foo''])
   \<and> target method ''//foo'' = (ToLower method, [''foo''])
   \<and> (SetDefault r method ''/foo'' d = Inr r2 \<and> d \<noteq> NilRoute \<longrightarrow>
        SetDefault r2 method ''/foo/'' d' =
          Inl (Panic (''router: already exists a default route for '' @ method @ '' /foo/''))
      \<and> (routeOf r2 (ToLower method, [''foo'']) = NilRoute \<longrightarrow>
           fst (findRoute r2 method (Split ''/foo/'')) = d
         \<and> fst (findRoute r2 method (Split ''/foo'')) =
             (if defaultRouteOf r2 (ToLower method, []) \<noteq> NilRoute
              then defaultRouteOf r2 (ToLower method, []) else nullRoute)))"
proof (intro conjI impI)
  assume eq: "pathKeys (Split url) = pathKeys (Split url')"
  show ins: "insertSubrouter r method url = insertSubrouter r method url'"
    using eq by (rule insertSubrouter_pathKeys)
  show "(Handle r method url rt = Inr r1) = (Handle r method url' rt = Inr r1)"
    using eq ins by (simp add: Handle_eq)
  show "(SetDefault r method url rt = Inr r1) = (SetDefault r method url' rt = Inr r1)"
    using eq ins by (simp add: SetDefault_eq)
  show "(SetErrorHandler r method url erh = Inr r1) = (SetErrorHandler r method url' erh = Inr r1)"
    using eq ins by (simp add: SetErrorHandler_eq)
next
  show "target method ''/foo'' = (ToLower method, [''foo''])"
    "target method ''foo'' = (ToLower method, [''foo''])"
    "target method ''/foo/'' = (ToLower method, [''foo''])"
    "target method ''//foo'' = (ToLower method, [''foo''])"
    by (simp_all add: target_def)
next
  assume a: "SetDefault r method ''/foo'' d = Inr r2 \<and> d \<noteq> NilRoute"
  then have set: "SetDefault r method ''/foo'' d = Inr r2" and d: "d \<noteq> NilRoute" by simp_all
  have dr: "defaultRouteOf r2 (ToLower method, [''foo'']) = d"
    using SetDefault_Inr(2) [OF set, of "target method ''/foo''"] by (simp add: target_def)
  show "SetDefault r2 method ''/foo/'' d' =
      Inl (Panic (''router: already exists a default route for '' @ method @ '' /foo/''))"
    using dr d by (simp add: SetDefault_eq)
  from dr d obtain root n where root: "roots r2 (ToLower method) = Some root"
    and n: "children root ''foo'' = Some n" and dn: "defaultRoute n = d"
    by (auto simp: defaultRouteOf_def deref_def split: option.splits)
  {
    assume "routeOf r2 (ToLower method, [''foo'']) = NilRoute"
    then have rn: "route n = NilRoute" using root n by (simp add: routeOf_def deref_def)
    show "fst (findRoute r2 method (Split ''/foo/'')) = d"
      using root n dn d rn by (simp add: findRoute_def Let_def)
    show "fst (findRoute r2 method (Split ''/foo'')) =
        (if defaultRouteOf r2 (ToLower method, []) \<noteq> NilRoute
         then defaultRouteOf r2 (ToLower method, []) else nullRoute)"
      using root n dn d rn by (simp add: findRoute_def Let_def defaultRouteOf_def deref_def)
  }
qed

text \<open>A root default, then a default at \<open>/foo\<close>, registered again as \<open>//foo/\<close> and as \<open>/foo/\<close>.\<close>

theorem C9_same_target_witness:
  "\<exists>(r :: (nat, nat) Router) (r2 :: (nat, nat) Router).
      SetDefault NewRouter ''GET'' ''/'' (RouteFn 1) = Inr r
    \<and> SetDefault r ''GET'' ''/foo'' (RouteFn 2) = Inr r2
    \<and> RouteFn (2::nat) \<noteq> NilRoute
    \<and> pathKeys (Split ''/foo'') = pathKeys (Split ''//foo/'')
    \<and> insertSubrouter r ''GET'' ''/foo'' = insertSubrouter r ''GET'' ''//foo/''
    \<and> SetDefault r ''GET'' ''//foo/'' (RouteFn 2) = Inr r2
    \<and> SetDefault r2 ''GET'' ''/foo/'' (RouteFn 3) =
        Inl (Panic ''router: already exists a default route for GET /foo/'')
    \<and> routeOf r2 (ToLower ''GET'', [''foo'']) = NilRoute
    \<and> fst (findRoute r2 ''GET'' (Split ''/foo/'')) = RouteFn 2
    \<and> fst (findRoute r2 ''GET'' (Split ''/foo'')) = RouteFn 1"
proof -
  obtain r :: "(nat, nat) Router"
    where r: "SetDefault NewRouter ''GET'' ''/'' (RouteFn 1) = Inr r"
    by (simp add: eval_defs)
  have "defaultRouteOf r (target ''GET'' ''/foo'') = NilRoute"
    using SetDefault_Inr(2) [OF r, of "target ''GET'' ''/foo''"]
    by (simp add: target_def defaultRouteOf_def deref_def NewRouter_def)
  then obtain r2 where r2: "SetDefault r ''GET'' ''/foo'' (RouteFn 2) = Inr r2"
    by (simp add: SetDefault_eq target_def)
  have nn: "RouteFn (2::nat) \<noteq> NilRoute" by simp
  have keys: "pathKeys (Split ''/foo'') = pathKeys (Split ''//foo/'')" by simp
  have msg: "''router: already exists a default route for '' @ ''GET'' @ '' /foo/''
      = ''router: already exists a default route for GET /foo/''" by simp
  have "routeOf r2 (ToLower ''GET'', [''foo'']) = routeOf r (ToLower ''GET'', [''foo''])"
    by (rule SetDefault_Inr(3) [OF r2])
  also have "\<dots> = routeOf (NewRouter :: (nat, nat) Router) (ToLower ''GET'', [''foo''])"
    by (rule SetDefault_Inr(3) [OF r])
  also have "\<dots> = NilRoute"
    by (simp add: routeOf_def deref_def NewRouter_def)
  finally have nr: "routeOf r2 (ToLower ''GET'', [''foo'']) = NilRoute" .
  have d0: "defaultRouteOf r2 (ToLower ''GET'', []) = RouteFn 1"
    using SetDefault_Inr(2) [OF r2, of "target ''GET'' ''/''"]
      SetDefault_Inr(2) [OF r, of "target ''GET'' ''/''"]
    by (simp add: target_def)
  from C9_same_target [of "''/foo''" "''//foo/''" r "''GET''" "RouteFn 2" r2 _ "RouteFn 2" r2
      "RouteFn 3"] r2 nn keys nr d0
  have "insertSubrouter r ''GET'' ''/foo'' = insertSubrouter r ''GET'' ''//foo/''
    \<and> SetDefault r ''GET'' ''//foo/'' (RouteFn 2) = Inr r2
    \<and> SetDefault r2 ''GET'' ''/foo/'' (RouteFn 3) =
        Inl (Panic ''router: already exists a default route for GET /foo/'')
    \<and> fst (findRoute r2 ''GET'' (Split ''/foo/'')) = RouteFn 2
    \<and> fst (findRoute r2 ''GET'' (Split ''/foo'')) = RouteFn 1"
    unfolding msg by simp
  with r r2 nn keys nr show ?thesis by blast
qed

subsection \<open>C10: a request segment \<open>*\<close> is a literal key\<close>

text \<open>
  C10. A request part that is literally \<open>*\<close> finds the wildcard child by the literal
  lookup, so the walk moves into it and appends nothing to args. After
  \<^verbatim>\<open>Handle(method, "/*", rt)\<close> with a handler \<open>rt\<close> (a function, not \<^verbatim>\<open>nil\<close>), on any router,
  \<^verbatim>\<open>findRoute(method, "/*")\<close> returns \<open>rt\<close> with empty args; and \<^verbatim>\<open>findRoute(method, "/x")\<close> for a
  non-empty segment \<open>x\<close> other than \<open>*\<close> returns \<open>rt\<close> with args \<open>[x]\<close> when the root has no
  literal child \<open>x\<close>, as in a router that holds this registration only.
\<close>

theorem C10_star_literal:
  "(children sr ''*'' = Some tmp \<longrightarrow>
      findLoop (''*'' # rest) sr rt0 erh0 args =
        findLoop rest tmp (if defaultRoute sr \<noteq> NilRoute then defaultRoute sr else rt0)
          (if errorHandler sr \<noteq> NilErrorHandler then errorHandler sr else erh0) args)
   \<and> (Handle r method ''/*'' rt = Inr r' \<and> rt \<noteq> NilRoute \<longrightarrow>
        (\<exists>erh. findRoute r' method (Split ''/*'') = (rt, erh, []))
      \<and> (x \<noteq> [] \<and> CHR ''/'' \<notin> set x \<and> x \<noteq> ''*''
           \<and> deref r' (ToLower method, [x]) = None \<longrightarrow>
           (\<exists>erh. findRoute r' method (Split (''/'' @ x)) = (rt, erh, [x]))))
   \<and> (rt \<noteq> NilRoute \<longrightarrow>
        resolve (Handle NewRouter method ''/*'' rt) method ''/*''
          = Inr (rt, nullErrorHandler, []))
   \<and> (rt \<noteq> NilRoute \<and> x \<noteq> [] \<and> CHR ''/'' \<notin> set x \<and> x \<noteq> ''*'' \<longrightarrow>
        resolve (Handle NewRouter method ''/*'' rt) method (''/'' @ x)
          = Inr (rt, nullErrorHandler, [x]))"
proof (intro conjI impI)
  assume "children sr ''*'' = Some tmp"
  then show "findLoop (''*'' # rest) sr rt0 erh0 args =
        findLoop rest tmp (if defaultRoute sr \<noteq> NilRoute then defaultRoute sr else rt0)
          (if errorHandler sr \<noteq> NilErrorHandler then errorHandler sr else erh0) args"
    by (simp add: Let_def)
next
  assume a: "Handle r method ''/*'' rt = Inr r' \<and> rt \<noteq> NilRoute"
  then have h: "Handle r method ''/*'' rt = Inr r'" and nn: "rt \<noteq> NilRoute" by simp_all
  have ro: "routeOf r' (ToLower method, [''*'']) = rt"
    using Handle_Inr(2) [OF h, of "target method ''/*''"] by (simp add: target_def)
  then have "routeOf r' (ToLower method, pathKeys (Split ''/*'')) = rt" by simp
  then show "\<exists>erh. findRoute r' method (Split ''/*'') = (rt, erh, [])"
    using nn by (rule findRoute_route)
  {
    assume x: "x \<noteq> [] \<and> CHR ''/'' \<notin> set x \<and> x \<noteq> ''*''
        \<and> deref r' (ToLower method, [x]) = None"
    from ro nn obtain root where root: "roots r' (ToLower method) = Some root"
      by (auto simp: routeOf_def deref_def split: option.splits)
    with x have none: "children root x = None"
      by (auto simp: deref_def split: option.splits)
    have parts: "pathKeys (Split (''/'' @ x)) = subst [''*''] [x]"
      using x by (simp add: Split_no_slash)
    have "unshadowed [''*''] [x] root" using none by (simp split: option.splits)
    with ro nn root parts show "\<exists>erh. findRoute r' method (Split (''/'' @ x)) = (rt, erh, [x])"
      by (intro findRoute_wildcards [where ks = "[''*'']"]) simp_all
  }
next
  assume "rt \<noteq> NilRoute"
  then show "resolve (Handle NewRouter method ''/*'' rt) method ''/*''
      = Inr (rt, nullErrorHandler, [])"
    by (simp add: eval_defs)
next
  assume "rt \<noteq> NilRoute \<and> x \<noteq> [] \<and> CHR ''/'' \<notin> set x \<and> x \<noteq> ''*''"
  then show "resolve (Handle NewRouter method ''/*'' rt) method (''/'' @ x)
      = Inr (rt, nullErrorHandler, [x])"
    by (simp add: eval_defs Split_no_slash)
qed

text \<open>The route \<open>/*\<close> beside a route \<open>/foo\<close>, requested as \<open>/*\<close> and as \<open>/x\<close>.\<close>

theorem C10_star_literal_witness:
  "\<exists>(r :: (nat, nat) Router) (r' :: (nat, nat) Router).
      Handle NewRouter ''GET'' ''/foo'' (RouteFn 1) = Inr r
    \<and> Handle r ''GET'' ''/*'' (RouteFn 2) = Inr r'
    \<and> RouteFn (2::nat) \<noteq> NilRoute
    \<and> ''x'' \<noteq> [] \<and> CHR ''/'' \<notin> set ''x'' \<and> ''x'' \<noteq> ''*''
    \<and> deref r' (ToLower ''GET'', [''x'']) = None
    \<and> (\<exists>erh. findRoute r' ''GET'' (Split ''/*'') = (RouteFn 2, erh, []))
    \<and> (\<exists>erh. findRoute r' ''GET'' (Split (''/'' @ ''x'')) = (RouteFn 2, erh, [''x'']))
    \<and> resolve (Handle (NewRouter :: (nat, nat) Router) ''GET'' ''/*'' (RouteFn 2)) ''GET'' ''/*''
        = Inr (RouteFn 2, nullErrorHandler, [])
    \<and> resolve (Handle (NewRouter :: (nat, nat) Router) ''GET'' ''/*'' (RouteFn 2)) ''GET''
          (''/'' @ ''x'')
        = Inr (RouteFn 2, nullErrorHandler, [''x''])
    \<and> children (Subrouter (Map.empty(''*'' \<mapsto> newSubrouter)) NilRoute NilRoute NilErrorHandler
          :: (nat, nat) subrouter) ''*'' = Some newSubrouter
    \<and> findLoop [''*'', ''y'']
          (Subrouter (Map.empty(''*'' \<mapsto> newSubrouter)) NilRoute NilRoute NilErrorHandler
            :: (nat, nat) subrouter) nullRoute nullErrorHandler []
        = findLoop [''y''] newSubrouter nullRoute nullErrorHandler []"
proof -
  obtain r :: "(nat, nat) Router"
    where r: "Handle NewRouter ''GET'' ''/foo'' (RouteFn 1) = Inr r"
    by (simp add: eval_defs)
  have "routeOf r (target ''GET'' ''/*'') = NilRoute"
    using Handle_Inr(2) [OF r, of "target ''GET'' ''/*''"]
    by (simp add: target_def routeOf_def deref_def NewRouter_def)
  then obtain r' where r': "Handle r ''GET'' ''/*'' (RouteFn 2) = Inr r'"
    by (simp add: Handle_eq target_def)
  have nn: "RouteFn (2::nat) \<noteq> NilRoute" by simp
  have x: "''x'' \<noteq> []" "CHR ''/'' \<notin> set ''x''" "''x'' \<noteq> ''*''" by simp_all
  have none: "deref r' (ToLower ''GET'', [''x'']) = None"
    using r r' by (auto simp: eval_defs)
  have ch: "children (Subrouter (Map.empty(''*'' \<mapsto> newSubrouter)) NilRoute NilRoute NilErrorHandler
          :: (nat, nat) subrouter) ''*'' = Some newSubrouter" by simp
  from C10_star_literal [of
      "Subrouter (Map.empty(''*'' \<mapsto> newSubrouter)) NilRoute NilRoute NilErrorHandler"
      newSubrouter "[''y'']" nullRoute nullErrorHandler "[]" r "''GET''" "RouteFn 2" r' "''x''"]
    r' nn x none ch
  have "(\<exists>erh. findRoute r' ''GET'' (Split ''/*'') = (RouteFn 2, erh, []))
    \<and> (\<exists>erh. findRoute r' ''GET'' (Split (''/'' @ ''x'')) = (RouteFn 2, erh, [''x'']))
    \<and> resolve (Handle (NewRouter :: (nat, nat) Router) ''GET'' ''/*'' (RouteFn 2)) ''GET'' ''/*''
        = Inr (RouteFn 2, nullErrorHandler, [])
    \<and> resolve (Handle (NewRouter :: (nat, nat) Router) ''GET'' ''/*'' (RouteFn 2)) ''GET''
          (''/'' @ ''x'')
        = Inr (RouteFn 2, nullErrorHandler, [''x''])
    \<and> findLoop [''*'', ''y'']
          (Subrouter (Map.empty(''*'' \<mapsto> newSubrouter)) NilRoute NilRoute NilErrorHandler
            :: (nat, nat) subrouter) nullRoute nullErrorHandler []
        = findLoop [''y''] newSubrouter nullRoute nullErrorHandler []"
    by simp
  with r r' nn x none ch show ?thesis by blast
qed

subsection \<open>Calls of handlers\<close>

text \<open>\<^verbatim>\<open>findRoute\<close> never returns \<^verbatim>\<open>nil\<close>, so the calls in \<^verbatim>\<open>ServeHTTP\<close> do not panic.\<close>

lemma callRoute_total:
  "rt \<noteq> NilRoute \<Longrightarrow> \<exists>er w1. callRoute h rt w req args = Inr (er, w1)"
  by (cases rt) (auto intro: prod.exhaust)

lemma callErrorHandler_total:
  "erh \<noteq> NilErrorHandler \<Longrightarrow> \<exists>w2. callErrorHandler h erh w req x = Inr w2"
  by (cases erh) auto

lemma ServeHTTP_eq:
  assumes "findRoute r (Method req) (Split (URL_Path req)) = (rt, erh, args)"
    and "callRoute h rt w req args = Inr (er, w1)"
  shows "ServeHTTP h r w req =
     (case er of
        None \<Rightarrow> Inr ([RouteCall rt args], w1)
      | Some x \<Rightarrow>
          (case callErrorHandler h erh w1 req x of
             Inl p \<Rightarrow> Inl p
           | Inr w2 \<Rightarrow> Inr ([RouteCall rt args, ErrorHandlerCall erh x], w2)))"
  using assms by (simp add: ServeHTTP_def Let_def split: option.splits)

subsection \<open>C8: the dispatcher\<close>

text \<open>
  C8. For every request, \<^verbatim>\<open>ServeHTTP\<close> calls the route that \<^verbatim>\<open>findRoute\<close> resolved exactly
  once, with the resolved args, and does not panic. It calls an error handler if and
  only if that call returned an error: no error handler when the route returned \<^verbatim>\<open>nil\<close>,
  and exactly one call, of the error handler resolved for the same request with the
  error the route returned, otherwise.
\<close>

theorem C8_dispatch:
  assumes "findRoute r (Method req) (Split (URL_Path req)) = (rt, erh, args)"
  shows "\<exists>er w1. callRoute h rt w req args = Inr (er, w1) \<and>
     (\<exists>calls w'. ServeHTTP h r w req = Inr (calls, w')
        \<and> filter isRouteCall calls = [RouteCall rt args]
        \<and> filter isErrorHandlerCall calls =
            (case er of None \<Rightarrow> [] | Some x \<Rightarrow> [ErrorHandlerCall erh x])
        \<and> (case er of None \<Rightarrow> w' = w1
             | Some x \<Rightarrow> callErrorHandler h erh w1 req x = Inr w'))"
proof -
  from findRoute_not_Nil [of r "Method req" "Split (URL_Path req)"] assms
  have rt: "rt \<noteq> NilRoute" and erh: "erh \<noteq> NilErrorHandler" by simp_all
  from callRoute_total [OF rt] obtain er w1 where call: "callRoute h rt w req args = Inr (er, w1)"
    by blast
  show ?thesis
  proof (cases er)
    case None
    with ServeHTTP_eq [OF assms call] call show ?thesis by simp
  next
    case (Some x)
    from callErrorHandler_total [OF erh] obtain w2
      where w2: "callErrorHandler h erh w1 req x = Inr w2" by blast
    with ServeHTTP_eq [OF assms call] Some call show ?thesis by simp
  qed
qed

text \<open>A route that fails, in a router without error handlers: the built-in one is called.\<close>

theorem C8_dispatch_witness:
  "\<exists>r. Handle NewRouter ''GET'' ''/foo''
          (RouteFn (\<lambda>w req args. (Some (7::nat), ''route'' # w))) = Inr r
     \<and> findRoute r ''GET'' (Split ''/foo'') =
         (RouteFn (\<lambda>w req args. (Some (7::nat), ''route'' # w)), nullErrorHandler, [])
     \<and> ServeHTTP \<lparr>http_NotFound = (\<lambda>w req. ''404'' # w), http_Error = (\<lambda>w msg code. ''500'' # w)\<rparr>
          r [] \<lparr>Method = ''GET'', URL_Path = ''/foo''\<rparr> =
         Inr ([RouteCall (RouteFn (\<lambda>w req args. (Some (7::nat), ''route'' # w))) [],
               ErrorHandlerCall nullErrorHandler 7], [''500'', ''route''])"
proof -
  let ?f = "\<lambda>(w :: string list) (req :: Request) (args :: string list). (Some (7::nat), ''route'' # w)"
  let ?h = "\<lparr>http_NotFound = (\<lambda>(w :: string list) (req :: Request). ''404'' # w),
      http_Error = (\<lambda>(w :: string list) (msg :: string) (code :: nat). ''500'' # w)\<rparr>"
  let ?req = "\<lparr>Method = ''GET'', URL_Path = ''/foo''\<rparr>"
  obtain r :: "((string list, nat) route_fn, (string list, nat) error_fn) Router"
    where r: "Handle NewRouter ''GET'' ''/foo'' (RouteFn ?f) = Inr r"
    by (simp add: eval_defs)
  then have fr: "findRoute r (Method ?req) (Split (URL_Path ?req)) = (RouteFn ?f, nullErrorHandler, [])"
    by (auto simp: eval_defs)
  from C8_dispatch [OF fr, of ?h "[]"] obtain calls w'
    where "ServeHTTP ?h r [] ?req = Inr (calls, w')"
      and "filter isRouteCall calls = [RouteCall (RouteFn ?f) []]"
      and "filter isErrorHandlerCall calls = [ErrorHandlerCall nullErrorHandler 7]"
      and "w' = [''500'', ''route'']"
    by auto
  moreover have "ServeHTTP ?h r [] ?req =
      Inr ([RouteCall (RouteFn ?f) [], ErrorHandlerCall nullErrorHandler 7], [''500'', ''route''])"
    using fr by (simp add: ServeHTTP_def)
  ultimately show ?thesis using r fr by auto
qed

subsection \<open>C5: a segment with neither a literal nor a wildcard child\<close>

text \<open>
  C5. For every method and path: when the walk has passed the parts \<open>pre\<close> and the next
  part \<open>seg\<close> is not empty and the current node has neither a child \<open>seg\<close> nor a child \<open>*\<close>,
  \<^verbatim>\<open>findRoute\<close> returns at once, whatever parts follow. It returns the most recently
  inherited default route among the nodes visited (the built-in \<^verbatim>\<open>nullRoute\<close> when none of
  them has one), the most recently inherited error handler (the built-in
  \<^verbatim>\<open>nullErrorHandler\<close> when none has one) and the args captured so far. The outcome is an
  ordinary result: \<^verbatim>\<open>ServeHTTP\<close> calls that route, and when the call returns \<^verbatim>\<open>nil\<close> it calls
  no error handler.
\<close>

theorem C5_unmatched_segment:
  assumes "roots r (ToLower method) = Some root"
    and "walk pre root = Some (ns, caps)"
    and "seg \<noteq> []"
    and "children (last ns) seg = None"
    and "children (last ns) ''*'' = None"
  shows "findRoute r method (pre @ seg # rest) =
           (inheritedDefault ns nullRoute, inheritedErrorHandler ns nullErrorHandler, caps)
    \<and> (Method req = method \<and> Split (URL_Path req) = pre @ seg # rest
         \<and> callRoute h (inheritedDefault ns nullRoute) w req caps = Inr (None, w1) \<longrightarrow>
         ServeHTTP h r w req = Inr ([RouteCall (inheritedDefault ns nullRoute) caps], w1))"
proof (intro conjI impI)
  show fr: "findRoute r method (pre @ seg # rest) =
      (inheritedDefault ns nullRoute, inheritedErrorHandler ns nullErrorHandler, caps)"
    using assms by (rule findRoute_unmatched)
  {
    assume a: "Method req = method \<and> Split (URL_Path req) = pre @ seg # rest
        \<and> callRoute h (inheritedDefault ns nullRoute) w req caps = Inr (None, w1)"
    then have "findRoute r (Method req) (Split (URL_Path req)) =
        (inheritedDefault ns nullRoute, inheritedErrorHandler ns nullErrorHandler, caps)"
      using fr by simp
    from ServeHTTP_eq [OF this, of h w None w1] a
    show "ServeHTTP h r w req = Inr ([RouteCall (inheritedDefault ns nullRoute) caps], w1)"
      by simp
  }
qed

text \<open>
  The request \<open>/foo/a/baz/more\<close> in a router with the route \<open>/foo/*/bar\<close>: the walk stops at
  \<open>baz\<close> with the default of \<open>/foo\<close>, the error handler of the root and the arg \<open>a\<close>.
\<close>

theorem C5_unmatched_segment_witness:
  "\<exists>r root ns.
      registerAll NewRouter
        [DoSetDefault ''GET'' ''/'' (RouteFn (\<lambda>w req args. (None, ''d1'' # w))),
         DoSetErrorHandler ''GET'' ''/'' (ErrorHandlerFn (\<lambda>w req (er :: nat). ''e1'' # w)),
         DoSetDefault ''GET'' ''/foo'' (RouteFn (\<lambda>w req args. (None, ''d2'' # w))),
         DoHandle ''GET'' ''/foo/*/bar'' (RouteFn (\<lambda>w req args. (None, ''r4'' # w)))] = Inr r
    \<and> roots r (ToLower ''GET'') = Some root
    \<and> walk [[], ''foo'', ''a''] root = Some (ns, [''a''])
    \<and> ''baz'' \<noteq> []
    \<and> children (last ns) ''baz'' = None
    \<and> children (last ns) ''*'' = None
    \<and> inheritedDefault ns nullRoute = RouteFn (\<lambda>w req args. (None, ''d2'' # w))
    \<and> inheritedErrorHandler ns nullErrorHandler = ErrorHandlerFn (\<lambda>w req er. ''e1'' # w)
    \<and> findRoute r ''GET'' (Split ''/foo/a/baz/more'') =
        (RouteFn (\<lambda>w req args. (None, ''d2'' # w)),
         ErrorHandlerFn (\<lambda>w req er. ''e1'' # w), [''a''])
    \<and> ServeHTTP \<lparr>http_NotFound = (\<lambda>w req. ''404'' # w), http_Error = (\<lambda>w msg code. ''500'' # w)\<rparr>
          r [] \<lparr>Method = ''GET'', URL_Path = ''/foo/a/baz/more''\<rparr> =
        Inr ([RouteCall (RouteFn (\<lambda>w req args. (None, ''d2'' # w))) [''a'']], [''d2''])"
proof -
  let ?d1 = "\<lambda>(w :: string list) (req :: Request) (args :: string list). (None :: nat option, ''d1'' # w)"
  let ?d2 = "\<lambda>(w :: string list) (req :: Request) (args :: string list). (None :: nat option, ''d2'' # w)"
  let ?r4 = "\<lambda>(w :: string list) (req :: Request) (args :: string list). (None :: nat option, ''r4'' # w)"
  let ?e1 = "\<lambda>(w :: string list) (req :: Request) (er :: nat). ''e1'' # w"
  let ?h = "\<lparr>http_NotFound = (\<lambda>(w :: string list) (req :: Request). ''404'' # w),
      http_Error = (\<lambda>(w :: string list) (msg :: string) (code :: nat). ''500'' # w)\<rparr>"
  let ?req = "\<lparr>Method = ''GET'', URL_Path = ''/foo/a/baz/more''\<rparr>"
  obtain r where r: "registerAll NewRouter
        [DoSetDefault ''GET'' ''/'' (RouteFn ?d1), DoSetErrorHandler ''GET'' ''/'' (ErrorHandlerFn ?e1),
         DoSetDefault ''GET'' ''/foo'' (RouteFn ?d2), DoHandle ''GET'' ''/foo/*/bar'' (RouteFn ?r4)]
        = Inr r"
    by (simp add: eval_defs)
  then obtain root where root: "roots r (ToLower ''GET'') = Some root"
    by (auto simp: eval_defs)
  from r root obtain ns where w: "walk [[], ''foo'', ''a''] root = Some (ns, [''a''])"
    and c1: "children (last ns) ''baz'' = None" and c2: "children (last ns) ''*'' = None"
    and d: "inheritedDefault ns nullRoute = RouteFn ?d2"
    and e: "inheritedErrorHandler ns nullErrorHandler = ErrorHandlerFn ?e1"
    by (auto simp: eval_defs)
  have seg: "''baz'' \<noteq> []" by simp
  have parts: "Split ''/foo/a/baz/more'' = [[], ''foo'', ''a''] @ ''baz'' # [''more'']" by simp
  from C5_unmatched_segment [OF root w seg c1 c2, of "[''more'']" ?req ?h "[]" "[''d2'']"]
  have "findRoute r ''GET'' (Split ''/foo/a/baz/more'') = (RouteFn ?d2, ErrorHandlerFn ?e1, [''a''])
      \<and> ServeHTTP ?h r [] ?req = Inr ([RouteCall (RouteFn ?d2) [''a'']], [''d2''])"
    unfolding parts d e by simp
  with r root w seg c1 c2 d e show ?thesis by blast
qed

subsection \<open>C3: defaults, and the trailing slash\<close>

text \<open>
  C3. In the router where \<^verbatim>\<open>SetDefault\<close> binds \<open>/\<close> to \<open>d1\<close> and \<open>/foo\<close> to \<open>d2\<close> and \<^verbatim>\<open>Handle\<close> binds
  \<open>/bar\<close> to \<open>r3\<close> and \<open>/foo/bar\<close> to \<open>r4\<close>, all under one method, \<^verbatim>\<open>findRoute\<close> for that method
  resolves \<open>/\<close> to \<open>d1\<close>, \<open>/foo\<close> to \<open>d1\<close>, \<open>/foo/\<close> to \<open>d2\<close>, \<open>/baz\<close> to \<open>d1\<close>, \<open>/bar\<close> to \<open>r3\<close>,
  \<open>/foo/bar\<close> to \<open>r4\<close> and \<open>/foo/baz\<close> to \<open>d2\<close>, each with the built-in error handler and no
  args. The mechanism is the last conjunct: at an empty part the loop does not move, but
  it has already taken over the default route and the error handler of the current
  node.
\<close>

theorem C3_default_scenario:
  "resolve (TestDefaultRoutes method d1 d2 r3 r4) method ''/''
     = Inr (RouteFn d1, nullErrorHandler, [])
   \<and> resolve (TestDefaultRoutes method d1 d2 r3 r4) method ''/foo''
     = Inr (RouteFn d1, nullErrorHandler, [])
   \<and> resolve (TestDefaultRoutes method d1 d2 r3 r4) method ''/foo/''
     = Inr (RouteFn d2, nullErrorHandler, [])
   \<and> resolve (TestDefaultRoutes method d1 d2 r3 r4) method ''/baz''
     = Inr (RouteFn d1, nullErrorHandler, [])
   \<and> resolve (TestDefaultRoutes method d1 d2 r3 r4) method ''/bar''
     = Inr (RouteFn r3, nullErrorHandler, [])
   \<and> resolve (TestDefaultRoutes method d1 d2 r3 r4) method ''/foo/bar''
     = Inr (RouteFn r4, nullErrorHandler, [])
   \<and> resolve (TestDefaultRoutes method d1 d2 r3 r4) method ''/foo/baz''
     = Inr (RouteFn d2, nullErrorHandler, [])
   \<and> findLoop ([] # rest) sr rt erh args =
       findLoop rest sr (if defaultRoute sr \<noteq> NilRoute then defaultRoute sr else rt)
         (if errorHandler sr \<noteq> NilErrorHandler then errorHandler sr else erh) args"
  by (simp add: TestDefaultRoutes_def eval_defs)

text \<open>The test's own instance: method \<open>GET\<close>, handlers 1 to 4.\<close>

theorem C3_default_scenario_witness:
  "resolve (TestDefaultRoutes ''GET'' (1::nat) 2 3 4 :: panic + (nat, nat) Router) ''GET'' ''/foo''
     = Inr (RouteFn 1, nullErrorHandler, [])
   \<and> resolve (TestDefaultRoutes ''GET'' (1::nat) 2 3 4 :: panic + (nat, nat) Router) ''GET'' ''/foo/''
     = Inr (RouteFn 2, nullErrorHandler, [])"
proof -
  have "resolve (TestDefaultRoutes ''GET'' (1::nat) 2 3 4 :: panic + (nat, nat) Router) ''GET'' ''/''
       = Inr (RouteFn 1, nullErrorHandler, [])
   \<and> resolve (TestDefaultRoutes ''GET'' (1::nat) 2 3 4 :: panic + (nat, nat) Router) ''GET'' ''/foo''
       = Inr (RouteFn 1, nullErrorHandler, [])
   \<and> resolve (TestDefaultRoutes ''GET'' (1::nat) 2 3 4 :: panic + (nat, nat) Router) ''GET'' ''/foo/''
       = Inr (RouteFn 2, nullErrorHandler, [])
   \<and> resolve (TestDefaultRoutes ''GET'' (1::nat) 2 3 4 :: panic + (nat, nat) Router) ''GET'' ''/baz''
       = Inr (RouteFn 1, nullErrorHandler, [])
   \<and> resolve (TestDefaultRoutes ''GET'' (1::nat) 2 3 4 :: panic + (nat, nat) Router) ''GET'' ''/bar''
       = Inr (RouteFn 3, nullErrorHandler, [])
   \<and> resolve (TestDefaultRoutes ''GET'' (1::nat) 2 3 4 :: panic + (nat, nat) Router) ''GET''
         ''/foo/bar''
       = Inr (RouteFn 4, nullErrorHandler, [])
   \<and> resolve (TestDefaultRoutes ''GET'' (1::nat) 2 3 4 :: panic + (nat, nat) Router) ''GET''
         ''/foo/baz''
       = Inr (RouteFn 2, nullErrorHandler, [])
   \<and> findLoop ([] # []) (newSubrouter :: (nat, nat) subrouter) nullRoute nullErrorHandler [] =
       findLoop [] newSubrouter
         (if defaultRoute (newSubrouter :: (nat, nat) subrouter) \<noteq> NilRoute
          then defaultRoute (newSubrouter :: (nat, nat) subrouter) else nullRoute)
         (if errorHandler (newSubrouter :: (nat, nat) subrouter) \<noteq> NilErrorHandler
          then errorHandler (newSubrouter :: (nat, nat) subrouter) else nullErrorHandler) []"
    by (rule C3_default_scenario)
  then show ?thesis by blast
qed

subsection \<open>C4: wildcards beside literals\<close>

text \<open>
  C4. In the router where \<^verbatim>\<open>Handle\<close> binds \<open>/\<close> to \<open>r1\<close>, \<open>/*\<close> to \<open>r2\<close>, \<open>/*/*\<close> to \<open>r3\<close>, \<open>/foo/*\<close> to
  \<open>r4\<close> and \<open>/*/foo\<close> to \<open>r5\<close> and \<^verbatim>\<open>SetDefault\<close> binds \<open>/\<close> to \<open>d6\<close>, all under one method,
  \<^verbatim>\<open>findRoute\<close> resolves \<open>/foo\<close> to \<open>d6\<close> with no args (the node \<open>foo\<close> exists and has no route, so
  the inherited default applies and not the wildcard route \<open>r2\<close>), \<open>/bar\<close> to \<open>r2\<close> with args
  \<open>[bar]\<close>, \<open>/foo/bar\<close> to \<open>r4\<close> with args \<open>[bar]\<close>, \<open>/bar/foo\<close> to \<open>r5\<close> with args \<open>[bar]\<close>, and
  \<open>/bar/bar\<close> to \<open>r3\<close> with args \<open>[bar, bar]\<close>.
\<close>

theorem C4_wildcard_scenario:
  "resolve (TestArgRoutes method r1 r2 r3 r4 r5 d6) method ''/foo''
     = Inr (RouteFn d6, nullErrorHandler, [])
   \<and> resolve (TestArgRoutes method r1 r2 r3 r4 r5 d6) method ''/bar''
     = Inr (RouteFn r2, nullErrorHandler, [''bar''])
   \<and> resolve (TestArgRoutes method r1 r2 r3 r4 r5 d6) method ''/foo/bar''
     = Inr (RouteFn r4, nullErrorHandler, [''bar''])
   \<and> resolve (TestArgRoutes method r1 r2 r3 r4 r5 d6) method ''/bar/foo''
     = Inr (RouteFn r5, nullErrorHandler, [''bar''])
   \<and> resolve (TestArgRoutes method r1 r2 r3 r4 r5 d6) method ''/bar/bar''
     = Inr (RouteFn r3, nullErrorHandler, [''bar'', ''bar''])"
  by (simp add: TestArgRoutes_def eval_defs)

text \<open>The test's own instance: method \<open>GET\<close>, handlers 1 to 6.\<close>

theorem C4_wildcard_scenario_witness:
  "resolve (TestArgRoutes ''GET'' (1::nat) 2 3 4 5 6 :: panic + (nat, nat) Router) ''GET'' ''/foo''
     = Inr (RouteFn 6, nullErrorHandler, [])
   \<and> resolve (TestArgRoutes ''GET'' (1::nat) 2 3 4 5 6 :: panic + (nat, nat) Router) ''GET''
         ''/bar/bar''
     = Inr (RouteFn 3, nullErrorHandler, [''bar'', ''bar''])"
proof -
  have "resolve (TestArgRoutes ''GET'' (1::nat) 2 3 4 5 6 :: panic + (nat, nat) Router) ''GET'' ''/foo''
       = Inr (RouteFn 6, nullErrorHandler, [])
   \<and> resolve (TestArgRoutes ''GET'' (1::nat) 2 3 4 5 6 :: panic + (nat, nat) Router) ''GET'' ''/bar''
       = Inr (RouteFn 2, nullErrorHandler, [''bar''])
   \<and> resolve (TestArgRoutes ''GET'' (1::nat) 2 3 4 5 6 :: panic + (nat, nat) Router) ''GET''
         ''/foo/bar''
       = Inr (RouteFn 4, nullErrorHandler, [''bar''])
   \<and> resolve (TestArgRoutes ''GET'' (1::nat) 2 3 4 5 6 :: panic + (nat, nat) Router) ''GET''
         ''/bar/foo''
       = Inr (RouteFn 5, nullErrorHandler, [''bar''])
   \<and> resolve (TestArgRoutes ''GET'' (1::nat) 2 3 4 5 6 :: panic + (nat, nat) Router) ''GET''
         ''/bar/bar''
       = Inr (RouteFn 3, nullErrorHandler, [''bar'', ''bar''])"
    by (rule C4_wildcard_scenario)
  then show ?thesis by blast
qed

subsection \<open>C1: wildcard routes, and literal children first\<close>

text \<open>
  C1, as stated, says that every route registered at a path with \<open>*\<close> segments is returned
  for every concrete path that puts a non-empty value in each \<open>*\<close> position. That fails
  where the value names a literal sibling of the \<open>*\<close> child: with the routes \<open>/*\<close> and
  \<open>/foo/*\<close>, the path \<open>/foo\<close> puts \<open>foo\<close> for the \<open>*\<close> of \<open>/*\<close>, but the walk moves into the
  literal node \<open>foo\<close>, which has no route, and the result is the built-in route with no
  args.
\<close>

theorem C1_counterexample:
  "resolve (registerAll (NewRouter :: (nat, nat) Router)
      [DoHandle ''GET'' ''/*'' (RouteFn 2), DoHandle ''GET'' ''/foo/*'' (RouteFn 4)])
      ''GET'' ''/foo'' = Inr (nullRoute, nullErrorHandler, [])
   \<and> pathKeys (Split ''/foo'') = subst (pathKeys (Split ''/*'')) [''foo'']"
  by (simp add: eval_defs)

text \<open>
  C1, amended. Whenever a sequence of registrations succeeds and contains
  \<^verbatim>\<open>Handle(method, url, rt)\<close> with a handler \<open>rt\<close> (a function, not \<^verbatim>\<open>nil\<close>), and a request path
  has the non-empty segments of \<open>url\<close> with each \<open>*\<close> replaced, in order, by the values
  \<open>vals\<close> (one segment each), and no node before a \<open>*\<close> of \<open>url\<close> has a literal child named
  by the value put there, \<^verbatim>\<open>findRoute\<close> with that method returns \<open>rt\<close> with args \<open>vals\<close>. At
  every node of the walk, a non-empty part that names a literal child moves into that
  child, whether or not a child \<open>*\<close> exists, and args stay as they are; only a part with
  no literal child moves into the child \<open>*\<close>, and that move appends the part to args.
\<close>

theorem C1_wildcards:
  "(registerAll r0 xs = Inr r \<and> DoHandle method url rt \<in> set xs \<and> rt \<noteq> NilRoute
      \<and> roots r (ToLower method) = Some root
      \<and> length vals = wildcards (pathKeys (Split url))
      \<and> unshadowed (pathKeys (Split url)) vals root
      \<and> pathKeys pathParts = subst (pathKeys (Split url)) vals \<longrightarrow>
      (\<exists>erh. findRoute r method pathParts = (rt, erh, vals)))
   \<and> (pathPart \<noteq> [] \<and> children sr pathPart = Some lit \<longrightarrow>
        findLoop (pathPart # rest) sr rt0 erh0 args =
          findLoop rest lit (if defaultRoute sr \<noteq> NilRoute then defaultRoute sr else rt0)
            (if errorHandler sr \<noteq> NilErrorHandler then errorHandler sr else erh0) args)
   \<and> (pathPart \<noteq> [] \<and> children sr pathPart = None \<and> children sr ''*'' = Some wild \<longrightarrow>
        findLoop (pathPart # rest) sr rt0 erh0 args =
          findLoop rest wild (if defaultRoute sr \<noteq> NilRoute then defaultRoute sr else rt0)
            (if errorHandler sr \<noteq> NilErrorHandler then errorHandler sr else erh0)
            (args @ [pathPart]))"
proof (intro conjI impI)
  assume a: "registerAll r0 xs = Inr r \<and> DoHandle method url rt \<in> set xs \<and> rt \<noteq> NilRoute
      \<and> roots r (ToLower method) = Some root
      \<and> length vals = wildcards (pathKeys (Split url))
      \<and> unshadowed (pathKeys (Split url)) vals root
      \<and> pathKeys pathParts = subst (pathKeys (Split url)) vals"
  then have "routeOf r (target method url) = rt"
    using registerAll_Handle_mem by blast
  then have "routeOf r (ToLower method, pathKeys (Split url)) = rt"
    by (simp add: target_def)
  moreover from a have "rt \<noteq> NilRoute" and "roots r (ToLower method) = Some root"
    and "length vals = wildcards (pathKeys (Split url))"
    and "unshadowed (pathKeys (Split url)) vals root"
    and "pathKeys pathParts = subst (pathKeys (Split url)) vals"
    by blast+
  ultimately show "\<exists>erh. findRoute r method pathParts = (rt, erh, vals)"
    by (rule findRoute_wildcards)
next
  assume "pathPart \<noteq> [] \<and> children sr pathPart = Some lit"
  then show "findLoop (pathPart # rest) sr rt0 erh0 args =
      findLoop rest lit (if defaultRoute sr \<noteq> NilRoute then defaultRoute sr else rt0)
        (if errorHandler sr \<noteq> NilErrorHandler then errorHandler sr else erh0) args"
    by (simp add: Let_def)
next
  assume "pathPart \<noteq> [] \<and> children sr pathPart = None \<and> children sr ''*'' = Some wild"
  then show "findLoop (pathPart # rest) sr rt0 erh0 args =
      findLoop rest wild (if defaultRoute sr \<noteq> NilRoute then defaultRoute sr else rt0)
        (if errorHandler sr \<noteq> NilErrorHandler then errorHandler sr else erh0)
        (args @ [pathPart])"
    by (simp add: Let_def)
qed

text \<open>
  The example of the package documentation: the route \<open>/*/foo/*\<close> and the request
  \<open>/a/foo/d\<close>, with a literal sibling \<open>b\<close> of the first \<open>*\<close>.
\<close>

theorem C1_wildcards_witness:
  "\<exists>(r :: (nat, nat) Router) root.
      registerAll NewRouter
        [DoHandle ''GET'' ''/*/foo/*'' (RouteFn 1), DoHandle ''GET'' ''/b/foo'' (RouteFn 2)] = Inr r
    \<and> DoHandle ''GET'' ''/*/foo/*'' (RouteFn 1) \<in> set
        ([DoHandle ''GET'' ''/*/foo/*'' (RouteFn 1), DoHandle ''GET'' ''/b/foo'' (RouteFn 2)]
          :: (nat, nat) registration list)
    \<and> RouteFn (1::nat) \<noteq> NilRoute
    \<and> roots r (ToLower ''GET'') = Some root
    \<and> length [''a'', ''d''] = wildcards (pathKeys (Split ''/*/foo/*''))
    \<and> unshadowed (pathKeys (Split ''/*/foo/*'')) [''a'', ''d''] root
    \<and> pathKeys (Split ''/a/foo/d'') = subst (pathKeys (Split ''/*/foo/*'')) [''a'', ''d'']
    \<and> (\<exists>erh. findRoute r ''GET'' (Split ''/a/foo/d'') = (RouteFn 1, erh, [''a'', ''d'']))
    \<and> children root ''b'' = Some (the (children root ''b''))
    \<and> findLoop [''b'', ''foo''] root nullRoute nullErrorHandler [] =
        findLoop [''foo''] (the (children root ''b'')) nullRoute nullErrorHandler []
    \<and> children root ''a'' = None
    \<and> children root ''*'' = Some (the (children root ''*''))
    \<and> findLoop [''a'', ''foo''] root nullRoute nullErrorHandler [] =
        findLoop [''foo''] (the (children root ''*'')) nullRoute nullErrorHandler [''a'']"
proof -
  let ?xs = "[DoHandle ''GET'' ''/*/foo/*'' (RouteFn (1::nat)),
      DoHandle ''GET'' ''/b/foo'' (RouteFn 2)] :: (nat, nat) registration list"
  obtain r :: "(nat, nat) Router" where r: "registerAll NewRouter ?xs = Inr r"
    by (simp add: eval_defs)
  then obtain root where root: "roots r (ToLower ''GET'') = Some root"
    by (auto simp: eval_defs)
  have mem: "DoHandle ''GET'' ''/*/foo/*'' (RouteFn 1) \<in> set ?xs" by simp
  have nn: "RouteFn (1::nat) \<noteq> NilRoute" by simp
  have len: "length [''a'', ''d''] = wildcards (pathKeys (Split ''/*/foo/*''))" by simp
  have un: "unshadowed (pathKeys (Split ''/*/foo/*'')) [''a'', ''d''] root"
    using r root by (auto simp: eval_defs)
  have parts: "pathKeys (Split ''/a/foo/d'') = subst (pathKeys (Split ''/*/foo/*'')) [''a'', ''d'']"
    by simp
  have lit: "children root ''b'' = Some (the (children root ''b''))"
    and none: "children root ''a'' = None"
    and wild: "children root ''*'' = Some (the (children root ''*''))"
    and dflt: "defaultRoute root = NilRoute" "errorHandler root = NilErrorHandler"
    using r root by (auto simp: eval_defs)
  have b: "''b'' \<noteq> []" and a: "''a'' \<noteq> []" by simp_all
  from C1_wildcards [of NewRouter ?xs r "''GET''" "''/*/foo/*''" "RouteFn 1" root "[''a'', ''d'']"
      "Split ''/a/foo/d''" "''b''" root "the (children root ''b'')" "[''foo'']"
      nullRoute nullErrorHandler "[]"]
    r mem nn root len un parts b lit
  have one: "(\<exists>erh. findRoute r ''GET'' (Split ''/a/foo/d'') = (RouteFn 1, erh, [''a'', ''d'']))
      \<and> findLoop [''b'', ''foo''] root nullRoute nullErrorHandler [] =
        findLoop [''foo''] (the (children root ''b'')) nullRoute nullErrorHandler []"
    unfolding dflt by simp
  from C1_wildcards [of NewRouter ?xs r "''GET''" "''/*/foo/*''" "RouteFn 1" root "[''a'', ''d'']"
      "Split ''/a/foo/d''" "''a''" root _ "[''foo'']"
      nullRoute nullErrorHandler "[]" "the (children root ''*'')"]
    a none wild
  have two: "findLoop [''a'', ''foo''] root nullRoute nullErrorHandler [] =
        findLoop [''foo''] (the (children root ''*'')) nullRoute nullErrorHandler [''a'']"
    unfolding dflt by simp
  note one1 = one [THEN conjunct1] and one2 = one [THEN conjunct2]
  show ?thesis
    by (rule exI [of _ r], rule exI [of _ root])
      (intro conjI r mem nn root len un parts lit none wild one1 one2 two)
qed

end
